theory Spec2Isabelle
  imports Main
begin

section \<open>Python values and errors\<close>

text \<open>
  The exceptions the modelled code can raise. A raise is the \<open>Inl\<close> branch of a sum,
  a normal return the \<open>Inr\<close> branch.
\<close>

datatype py_error =
    KeyError
  | IndexError
  | FileNotFoundError string
  | FileExistsError
  | NotADirectoryError
  | Cv2Error
  | CameraError
  | OverlayError

type_synonym Grid = "int list list"

text \<open>
  Modelled from the spec: the cell constants of \<open>src/grid_api.py\<close>, which
  \<open>editor_prototype.py\<close> imports and whose file is not among the sources. The spec
  fixes them as FREE=0, OBSTACLE=1, HOME=2.
\<close>

definition FREE :: int where
  "FREE = 0"

definition OBSTACLE :: int where
  "OBSTACLE = 1"

definition HOME :: int where
  "HOME = 2"

text \<open>Sequencing of fallible steps: the first raise ends the computation.\<close>

definition and_then :: "'e + 'a \<Rightarrow> ('a \<Rightarrow> 'e + 'b) \<Rightarrow> 'e + 'b" where
  "and_then r f = (case r of Inl e \<Rightarrow> Inl e | Inr x \<Rightarrow> f x)"

text \<open>A \<open>for\<close> loop over a sequence whose body updates the loop state or raises.\<close>

fun for_each :: "'i list \<Rightarrow> ('s \<Rightarrow> 'i \<Rightarrow> 'e + 's) \<Rightarrow> 's \<Rightarrow> 'e + 's" where
  "for_each [] body s = Inr s"
| "for_each (i # rest) body s = and_then (body s i) (for_each rest body)"

text \<open>Python's \<open>range(n)\<close>: the integers from 0 below \<open>n\<close>, empty when \<open>n \<le> 0\<close>.\<close>

definition py_range :: "int \<Rightarrow> int list" where
  "py_range n = map int [0..<nat n]"

text \<open>Python's \<open>sep.join(xs)\<close> on strings.\<close>

fun join :: "string \<Rightarrow> string list \<Rightarrow> string" where
  "join sep [] = []"
| "join sep [x] = x"
| "join sep (x # y # rest) = x @ sep @ join sep (y # rest)"

text \<open>
  Python list indexing \<open>xs[i]\<close>: a negative index counts from the end, an index
  outside \<open>-len .. len-1\<close> raises IndexError.
\<close>

definition py_index :: "'a list \<Rightarrow> int \<Rightarrow> py_error + nat" where
  "py_index xs i =
     (let n = int (length xs); j = (if i < 0 then n + i else i)
      in if 0 \<le> j \<and> j < n then Inr (nat j) else Inl IndexError)"

definition py_getitem :: "'a list \<Rightarrow> int \<Rightarrow> py_error + 'a" where
  "py_getitem xs i =
     (case py_index xs i of Inl e \<Rightarrow> Inl e | Inr j \<Rightarrow> Inr (xs ! j))"

definition py_setitem :: "'a list \<Rightarrow> int \<Rightarrow> 'a \<Rightarrow> py_error + 'a list" where
  "py_setitem xs i v =
     (case py_index xs i of Inl e \<Rightarrow> Inl e | Inr j \<Rightarrow> Inr (xs[j := v]))"

section \<open>The cell state cycle\<close>

text \<open>
  \<open>_handle_mouse\<close>, lines 405-409: the dictionary literal
  \<open>{FREE: OBSTACLE, OBSTACLE: HOME, HOME: FREE}\<close> and its subscription by the current
  cell value, which raises KeyError on a key the dictionary lacks.
\<close>

definition cycle_table :: "int \<rightharpoonup> int" where
  "cycle_table = [FREE \<mapsto> OBSTACLE, OBSTACLE \<mapsto> HOME, HOME \<mapsto> FREE]"

definition next_state :: "int \<Rightarrow> py_error + int" where
  "next_state current =
     (case cycle_table current of None \<Rightarrow> Inl KeyError | Some v \<Rightarrow> Inr v)"

text \<open>\<open>n\<close> successive applications, stopping at the first raise.\<close>

fun next_state_n :: "nat \<Rightarrow> int \<Rightarrow> py_error + int" where
  "next_state_n 0 s = Inr s"
| "next_state_n (Suc n) s =
     (case next_state s of Inl e \<Rightarrow> Inl e | Inr s' \<Rightarrow> next_state_n n s')"


section \<open>Seeding the grid\<close>

text \<open>
  \<open>_seed_grid\<close>, lines 180-194. The persisted value has the declared type
  \<open>Sequence[Sequence[int]]\<close>, on which \<open>int()\<close> is the identity. The rows of \<open>seeded\<close>
  are built by a list comprehension, so they are distinct objects and an assignment to
  one row is not seen through another: a list of lists by value is faithful here.
  \<open>seed_cell\<close> is the body of the inner loop, line 193.
\<close>

definition seed_cell :: "int list \<Rightarrow> int \<Rightarrow> Grid \<Rightarrow> int \<Rightarrow> py_error + Grid" where
  "seed_cell persisted_row row_idx seeded col_idx =
     and_then (py_getitem persisted_row col_idx) (\<lambda>v.
     and_then (py_getitem seeded row_idx) (\<lambda>target.
     and_then (py_setitem target col_idx v) (\<lambda>target'.
     py_setitem seeded row_idx target')))"

definition seed_row :: "int \<Rightarrow> Grid \<Rightarrow> Grid \<Rightarrow> int \<Rightarrow> py_error + Grid" where
  "seed_row cols persisted seeded row_idx =
     and_then (py_getitem persisted row_idx) (\<lambda>persisted_row.
       let max_col = min cols (int (length persisted_row))
       in for_each (py_range max_col) (seed_cell persisted_row row_idx) seeded)"

definition seed_grid :: "int \<Rightarrow> int \<Rightarrow> Grid \<Rightarrow> py_error + Grid" where
  "seed_grid rows cols persisted =
     (let seeded = map (\<lambda>_. map (\<lambda>_. FREE) (py_range cols)) (py_range rows);
          max_row = min rows (int (length persisted))
      in for_each (py_range max_row) (seed_row cols persisted) seeded)"

section \<open>The editor state and the click handler\<close>

text \<open>
  The overlay is an external collaborator: its answer to \<open>get_grid_cell_from_rectified\<close>
  is a dictionary with the keys \<open>in_bounds\<close>, \<open>row\<close> and \<open>col\<close>, and \<open>transform_image\<close>
  reads the file at a path and returns the rectified image with its offsets. Both are
  fields of the overlay here, so every theorem holds for any overlay.
\<close>

type_synonym path = "string list"

datatype json = JNull | JBool bool | JNum int | JStr string | JArr "json list"

datatype 'img content = Picture 'img | Json json | Other

record 'img world =
  files :: "path \<rightharpoonup> 'img content"
  dirs :: "path set"

record cell_info =
  in_bounds :: bool
  cell_row :: int
  cell_col :: int

record offset_info =
  info_offset_x :: int
  info_offset_y :: int

record 'img GPSOverlay =
  grid_rows :: int
  grid_cols :: int
  get_grid_cell_from_rectified :: "int \<Rightarrow> int \<Rightarrow> cell_info"
  transform_image :: "'img world \<Rightarrow> path \<Rightarrow> py_error + ('img \<times> offset_info)"

text \<open>
  \<open>EditorState\<close>, lines 50-71, without the fields \<open>arena_bounds\<close>, \<open>cell_width\<close> and
  \<open>cell_height\<close>, which hold floats and are read by the drawing code only.
\<close>

record 'img EditorState =
  grid :: Grid
  overlay :: "'img GPSOverlay"
  rows :: int
  cols :: int
  offset_x :: int
  offset_y :: int
  rectified_width :: int
  rectified_height :: int
  grid_path :: path

text \<open>OpenCV's event code of a left button press.\<close>

definition EVENT_LBUTTONDOWN :: int where
  "EVENT_LBUTTONDOWN = 1"

text \<open>\<open>_rectified_to_grid_cell\<close>, lines 148-178.\<close>

definition rectified_to_grid_cell ::
  "int \<Rightarrow> int \<Rightarrow> 'img EditorState \<Rightarrow> (int \<times> int) option" where
  "rectified_to_grid_cell x y state =
     (let x_canvas = x + offset_x state;
          y_canvas = y + offset_y state;
          info = get_grid_cell_from_rectified (overlay state) x_canvas y_canvas
      in if \<not> in_bounds info then None else Some (cell_row info, cell_col info))"

text \<open>
  \<open>_handle_mouse\<close>, lines 387-411. The handler mutates \<open>state.grid\<close> in place; the model
  returns the state after the call. Every raise happens before the assignment of line
  411, so a raise leaves the state as it was. The console output is not modelled.
\<close>

definition handle_mouse ::
  "int \<Rightarrow> int \<Rightarrow> int \<Rightarrow> int \<Rightarrow> 'img EditorState \<Rightarrow> py_error + 'img EditorState" where
  "handle_mouse event x y flags state =
     (if event \<noteq> EVENT_LBUTTONDOWN then Inr state
      else case rectified_to_grid_cell x y state of
        None \<Rightarrow> Inr state
      | Some (r, c) \<Rightarrow>
          and_then (py_getitem (grid state) r) (\<lambda>grid_row.
          and_then (py_getitem grid_row c) (\<lambda>current.
          and_then (next_state current) (\<lambda>updated_value.
          and_then (py_setitem grid_row c updated_value) (\<lambda>grid_row'.
          and_then (py_setitem (grid state) r grid_row') (\<lambda>grid'.
          Inr (state\<lparr>grid := grid'\<rparr>)))))))"

text \<open>The data-model invariant of the spec: rectangular, every value one of the three states.\<close>

definition rectangular :: "Grid \<Rightarrow> bool" where
  "rectangular g = (case g of [] \<Rightarrow> True | r # rest \<Rightarrow> list_all (\<lambda>r'. length r' = length r) rest)"

definition cells_valid :: "Grid \<Rightarrow> bool" where
  "cells_valid g = list_all (list_all (\<lambda>v. v = FREE \<or> v = OBSTACLE \<or> v = HOME)) g"

definition grid_invariant :: "Grid \<Rightarrow> bool" where
  "grid_invariant g = (rectangular g \<and> cells_valid g)"

text \<open>
  The state after a sequence of mouse events \<open>(event, x, y, flags)\<close>, dispatched to the
  handler one after the other. A raise in the handler leaves the state as it was, since
  every raise happens before the assignment.
\<close>

fun handle_events ::
  "(int \<times> int \<times> int \<times> int) list \<Rightarrow> 'img EditorState \<Rightarrow> 'img EditorState" where
  "handle_events [] state = state"
| "handle_events ((event, x, y, flags) # rest) state =
     handle_events rest
       (case handle_mouse event x y flags state of Inl e \<Rightarrow> state | Inr state' \<Rightarrow> state')"

section \<open>Files, the camera and frame acquisition\<close>

text \<open>
  The part of the file system the editor touches: the files with their contents and the
  directories. A path is its list of components; the empty path is the working directory.
\<close>

definition parent :: "path \<Rightarrow> path" where
  "parent p = butlast p"

definition path_exists :: "'img world \<Rightarrow> path \<Rightarrow> bool" where
  "path_exists w p = (files w p \<noteq> None \<or> p \<in> dirs w)"

text \<open>\<open>cv2.imread\<close> returns \<open>None\<close> for anything that does not decode as an image.\<close>

definition imread :: "'img world \<Rightarrow> path \<Rightarrow> 'img option" where
  "imread w p = (case files w p of Some (Picture img) \<Rightarrow> Some img | _ \<Rightarrow> None)"

text \<open>
  \<open>str(path)\<close> of a \<open>pathlib.Path\<close>: the components joined by a slash.
\<close>

definition path_name :: "path \<Rightarrow> string" where
  "path_name p = join ''/'' p"

text \<open>
  \<open>cv2.imwrite\<close> chooses the encoder by the file name (\<open>findEncoder\<close> of OpenCV's
  \<open>imgcodecs\<close>): the extension is the run of letters and digits after the last dot of
  the name, compared without regard to case with the extensions of the encoders the
  library was built with. \<open>encoders\<close> is that table, a list of extensions such as
  \<open>png\<close> and \<open>jpg\<close>.
\<close>

definition is_alnum :: "char \<Rightarrow> bool" where
  "is_alnum c =
     (c \<in> set ''abcdefghijklmnopqrstuvwxyzABCDEFGHIJKLMNOPQRSTUVWXYZ0123456789'')"

definition to_lower :: "char \<Rightarrow> char" where
  "to_lower c =
     (case map_of (zip ''ABCDEFGHIJKLMNOPQRSTUVWXYZ'' ''abcdefghijklmnopqrstuvwxyz'') c of
        None \<Rightarrow> c
      | Some l \<Rightarrow> l)"

definition extension :: "string \<Rightarrow> string option" where
  "extension name =
     (if length name \<le> 1 \<or> CHR ''.'' \<notin> set name then None
      else Some (takeWhile is_alnum (rev (takeWhile (\<lambda>c. c \<noteq> CHR ''.'') (rev name)))))"

definition has_encoder :: "string list \<Rightarrow> string \<Rightarrow> bool" where
  "has_encoder encoders name =
     (case extension name of
        None \<Rightarrow> False
      | Some ext \<Rightarrow> map to_lower ext \<in> set (map (map to_lower) encoders))"

text \<open>
  \<open>cv2.imwrite\<close> raises \<open>cv2.error\<close> when no encoder fits the file name. With an
  encoder it does not raise when it cannot write: it returns \<open>False\<close>, which the editor
  ignores. It cannot write where the parent directory is missing or the path is a
  directory. The images are non-empty arrays.
\<close>

definition imwrite :: "string list \<Rightarrow> 'img world \<Rightarrow> path \<Rightarrow> 'img \<Rightarrow> py_error + 'img world" where
  "imwrite encoders w p img =
     (if \<not> has_encoder encoders (path_name p) then Inl Cv2Error
      else if parent p \<in> dirs w \<and> p \<notin> dirs w
      then Inr (w\<lparr>files := (files w)(p \<mapsto> Picture img)\<rparr>)
      else Inr w)"

text \<open>
  \<open>Path.mkdir(parents=True, exist_ok=True)\<close>: raises NotADirectoryError when a proper
  ancestor of the directory is a file; does nothing when the directory exists; raises
  FileExistsError when a file has its name; otherwise creates the directory and its
  missing ancestors. \<open>ancestors\<close> are the proper ancestors, from the working
  directory down.
\<close>

definition ancestors :: "path \<Rightarrow> path list" where
  "ancestors d = map (\<lambda>n. take n d) [0..<length d]"

definition mkdir_parents :: "'img world \<Rightarrow> path \<Rightarrow> py_error + 'img world" where
  "mkdir_parents w d =
     (if list_ex (\<lambda>a. files w a \<noteq> None) (ancestors d) then Inl NotADirectoryError
      else if d \<in> dirs w then Inr w
      else if files w d \<noteq> None then Inl FileExistsError
      else Inr (w\<lparr>dirs := dirs w \<union> set (ancestors d) \<union> {d}\<rparr>))"

text \<open>
  \<open>_get_rectified_frame\<close>, lines 73-146. \<open>fetch_axis_snapshot\<close> is the camera: it
  returns a frame or raises. \<open>shape\<close> gives an image's (height, width). \<open>encoders\<close> is
  the encoder table of the OpenCV build. The result is the returned tuple together with
  the file system after the call. The console output is not modelled.
\<close>

definition get_rectified_frame ::
  "py_error + 'img \<Rightarrow> ('img \<Rightarrow> int \<times> int) \<Rightarrow> string list \<Rightarrow> 'img GPSOverlay \<Rightarrow> path option
     \<Rightarrow> 'img world \<Rightarrow> py_error + (('img \<times> int \<times> int \<times> offset_info) \<times> 'img world)" where
  "get_rectified_frame fetch_axis_snapshot shape encoders ov snapshot_path_arg w =
     (let snapshot_path =
            (case snapshot_path_arg of None \<Rightarrow> [''snapshot_raw.png''] | Some p \<Rightarrow> p)
      in and_then
        (if path_exists w snapshot_path then
           (case imread w snapshot_path of
              None \<Rightarrow>
                and_then fetch_axis_snapshot (\<lambda>raw_frame.
                and_then (imwrite encoders w snapshot_path raw_frame) (\<lambda>w1.
                Inr (raw_frame, w1)))
            | Some raw_frame \<Rightarrow> Inr (raw_frame, w))
         else
           and_then fetch_axis_snapshot (\<lambda>raw_frame.
           and_then (mkdir_parents w (parent snapshot_path)) (\<lambda>w1.
           and_then (imwrite encoders w1 snapshot_path raw_frame) (\<lambda>w2.
           Inr (raw_frame, w2)))))
        (\<lambda>(raw_frame, w2).
           and_then (transform_image ov w2 snapshot_path) (\<lambda>(rectified, offsets).
           let (height, width) = shape rectified
           in and_then (imwrite encoders w2 [''snapshot_rectified.png''] rectified) (\<lambda>w3.
              Inr ((rectified, width, height, offsets), w3)))))"

section \<open>The entry point\<close>

text \<open>
  \<open>main\<close>, lines 525-541. \<open>project_root\<close> is the directory two levels above the module
  file. The constructor of the overlay and \<open>run_editor\<close> are parameters; the list of
  actions records which of them were called, in order.
\<close>

datatype action = ConstructOverlay path | RunEditor

definition path_str :: "path \<Rightarrow> string" where
  "path_str p = concat (map (\<lambda>c. ''/'' @ c) p)"

definition overlay_path :: "path \<Rightarrow> path" where
  "overlay_path project_root = project_root @ [''overlay'', ''gps_overlay.json'']"

definition not_found_message :: "path \<Rightarrow> string" where
  "not_found_message p =
     ''GPS overlay configuration not found at '' @ path_str p @ ''. '' @
     ''Please ensure gps_overlay.json exists in the overlay/ folder.''"

definition main ::
  "path \<Rightarrow> (path \<Rightarrow> py_error + 'ov) \<Rightarrow> ('ov \<Rightarrow> py_error + 'r) \<Rightarrow> 'img world
     \<Rightarrow> action list \<times> (py_error + 'r)" where
  "main project_root construct_overlay run_editor w =
     (let p = overlay_path project_root
      in if \<not> path_exists w p then ([], Inl (FileNotFoundError (not_found_message p)))
         else case construct_overlay p of
                Inl e \<Rightarrow> ([ConstructOverlay p], Inl e)
              | Inr ov \<Rightarrow> ([ConstructOverlay p, RunEditor], run_editor ov))"

section \<open>The grid file\<close>

text \<open>
  Modelled from the spec: \<open>load_grid\<close> and \<open>save_grid\<close> of \<open>src/grid_api.py\<close>, which is not
  among the sources. The spec, section 4.2: read parses a JSON array of arrays of
  integers into the grid, a missing file yields an empty grid and no error; write
  serialises the grid as nested integer arrays and overwrites the file, without creating
  parent directories. Section 7: a corrupt grid file is treated as an empty grid. The
  text of the file is abstracted to the JSON value it denotes.
\<close>

definition encode_grid :: "Grid \<Rightarrow> json" where
  "encode_grid g = JArr (map (\<lambda>r. JArr (map JNum r)) g)"

fun decode_int :: "json \<Rightarrow> int option" where
  "decode_int (JNum n) = Some n"
| "decode_int _ = None"

fun decode_array :: "(json \<Rightarrow> 'a option) \<Rightarrow> json \<Rightarrow> 'a list option" where
  "decode_array f (JArr xs) = those (map f xs)"
| "decode_array f _ = None"

definition decode_grid :: "json \<Rightarrow> Grid option" where
  "decode_grid j = decode_array (decode_array decode_int) j"

definition load_grid :: "'img world \<Rightarrow> path \<Rightarrow> py_error + Grid" where
  "load_grid w p =
     (case files w p of
        None \<Rightarrow> Inr []
      | Some (Json j) \<Rightarrow> (case decode_grid j of Some g \<Rightarrow> Inr g | None \<Rightarrow> Inr [])
      | Some _ \<Rightarrow> Inr [])"

definition save_grid :: "Grid \<Rightarrow> path \<Rightarrow> 'img world \<Rightarrow> py_error + 'img world" where
  "save_grid g p w =
     (if parent p \<in> dirs w
      then Inr (w\<lparr>files := (files w)(p \<mapsto> Json (encode_grid g))\<rparr>)
      else Inl (FileNotFoundError (path_str p)))"

section \<open>The layout API\<close>

text \<open>
  Modelled from the spec: \<open>get_map_json\<close>, \<open>get_map\<close>, \<open>get_map_as_string\<close> and
  \<open>get_map_info\<close> of \<open>api/layout-api.py\<close>, which is not among the sources. The spec,
  section 4.3: a read-only facade over the same JSON file that returns the raw data, a
  symbol-substituted copy, a joined-string rendering with a configurable cell separator,
  and aggregate statistics, the counts per category. The keys of the statistics are the
  ones \<open>tests/test_layout_api.py\<close> and \<open>api/example_usage.py\<close> read; the percentages
  are computed from them by these callers. \<open>symbols\<close> is the symbol mapping, from a cell
  value to its symbol.
\<close>

definition get_map_json :: "'img world \<Rightarrow> path \<Rightarrow> py_error + Grid" where
  "get_map_json w p = load_grid w p"

definition get_map :: "(int \<Rightarrow> string) \<Rightarrow> 'img world \<Rightarrow> path \<Rightarrow> py_error + string list list" where
  "get_map symbols w p = and_then (get_map_json w p) (\<lambda>g. Inr (map (map symbols) g))"

definition get_map_as_string ::
  "(int \<Rightarrow> string) \<Rightarrow> string \<Rightarrow> 'img world \<Rightarrow> path \<Rightarrow> py_error + string" where
  "get_map_as_string symbols cell_separator w p =
     and_then (get_map symbols w p) (\<lambda>m.
     Inr (join [CHR 0x0A] (map (join cell_separator) m)))"

record map_info =
  info_rows :: nat
  info_cols :: nat
  total_cells :: nat
  free_count :: nat
  obstacle_count :: nat
  home_count :: nat

definition count_cells :: "int \<Rightarrow> Grid \<Rightarrow> nat" where
  "count_cells v g = length (filter (\<lambda>cell. cell = v) (concat g))"

definition grid_info :: "Grid \<Rightarrow> map_info" where
  "grid_info g =
     \<lparr>info_rows = length g,
      info_cols = (case g of [] \<Rightarrow> 0 | r # _ \<Rightarrow> length r),
      total_cells = length (concat g),
      free_count = count_cells FREE g,
      obstacle_count = count_cells OBSTACLE g,
      home_count = count_cells HOME g\<rparr>"

definition get_map_info :: "'img world \<Rightarrow> path \<Rightarrow> py_error + map_info" where
  "get_map_info w p = and_then (get_map_json w p) (\<lambda>g. Inr (grid_info g))"

text \<open>
  \<open>test_get_map_info\<close>, lines 150-174 of \<open>tests/test_layout_api.py\<close> (and
  \<open>example_map_info\<close>, lines 128-152 of \<open>api/example_usage.py\<close>): both read the counts
  from the result of \<open>get_map_info\<close> and compute the percentages themselves, as
  \<open>(count / total) * 100\<close> printed with the format \<open>.1f\<close>, when the total is not 0.

  The arithmetic is that of IEEE 754 doubles. A positive double is \<open>m * 2 ^ e\<close> with a
  mantissa \<open>m\<close> of 53 bits; \<open>nearest_double a b\<close> is the double nearest to the fraction
  \<open>a / b\<close>, a tie going to the even mantissa, as a fraction whose denominator is a power
  of two. Python's \<open>count / total\<close> on integers is the double nearest to the quotient,
  the product with \<open>100\<close> is the double nearest to the exact product, and the format
  \<open>.1f\<close> prints the multiple of a tenth nearest to the exact value of that double, a tie
  going to the even one. \<open>percent_1f\<close> is the printed number in tenths. It has no value
  when the division raises (a total of 0) or an operand is \<open>2 ^ 63\<close> or more, which no
  count of list elements is; below that bound every double involved is a normal one.
\<close>

definition round_half_even :: "nat \<Rightarrow> nat \<Rightarrow> nat" where
  "round_half_even a b =
     (let q = a div b; r = a mod b
      in if 2 * r < b then q
         else if 2 * r > b then q + 1
         else if even q then q else q + 1)"

fun bit_length :: "nat \<Rightarrow> nat" where
  "bit_length n = (if n = 0 then 0 else Suc (bit_length (n div 2)))"

declare bit_length.simps [simp del]

definition pow2 :: "int \<Rightarrow> nat" where
  "pow2 k = 2 ^ nat k"

definition nearest_double :: "nat \<Rightarrow> nat \<Rightarrow> nat \<times> nat" where
  "nearest_double a b =
     (if a = 0 then (0, 1)
      else let d = int (bit_length a) - int (bit_length b);
               k = (if b * pow2 d \<le> a * pow2 (- d) then 52 - d else 53 - d);
               m = round_half_even (a * pow2 k) (b * pow2 (- k))
           in (m * pow2 (- k), pow2 k))"

definition percent_1f :: "nat \<Rightarrow> nat \<Rightarrow> nat option" where
  "percent_1f cnt whole =
     (if whole = 0 \<or> 2 ^ 63 \<le> whole \<or> 2 ^ 63 \<le> cnt then None
      else let (qn, qd) = nearest_double cnt whole;
               (pn, pd) = nearest_double (qn * 100) qd
           in Some (round_half_even (pn * 10) pd))"

definition percentages :: "map_info \<Rightarrow> (nat option \<times> nat option \<times> nat option) option" where
  "percentages info =
     (if total_cells info > 0
      then Some (percent_1f (free_count info) (total_cells info),
                 percent_1f (obstacle_count info) (total_cells info),
                 percent_1f (home_count info) (total_cells info))
      else None)"

definition test_get_map_info ::
  "'img world \<Rightarrow> path
     \<Rightarrow> py_error + (map_info \<times> (nat option \<times> nat option \<times> nat option) option)" where
  "test_get_map_info w p = and_then (get_map_info w p) (\<lambda>info. Inr (info, percentages info))"

section \<open>Concrete instances\<close>

text \<open>
  An overlay that answers every position with the same cell, and an editor state built
  from a grid and an overlay with zero offsets: the inputs of the concrete instances below.
\<close>

definition overlay_at :: "bool \<Rightarrow> int \<Rightarrow> int \<Rightarrow> unit GPSOverlay" where
  "overlay_at inside r c =
     \<lparr>grid_rows = 1, grid_cols = 1,
      get_grid_cell_from_rectified = (\<lambda>x y. \<lparr>in_bounds = inside, cell_row = r, cell_col = c\<rparr>),
      transform_image = (\<lambda>w p. Inl OverlayError)\<rparr>"

definition editor_with :: "Grid \<Rightarrow> unit GPSOverlay \<Rightarrow> unit EditorState" where
  "editor_with g ov =
     \<lparr>grid = g, overlay = ov, rows = grid_rows ov, cols = grid_cols ov,
      offset_x = 0, offset_y = 0, rectified_width = 0, rectified_height = 0,
      grid_path = [''grid.json'']\<rparr>"

text \<open>
  The plain symbols of the tests; a file system with the working directory and no files;
  an overlay whose
  \<open>transform_image\<close> reads the image at the path; a camera frame size; and a file system
  whose snapshot file does not decode as an image.
\<close>

definition plain_symbols :: "int \<Rightarrow> string" where
  "plain_symbols v =
     (if v = FREE then ''.'' else if v = OBSTACLE then ''#''
      else if v = HOME then ''H'' else ''?'')"

definition empty_world :: "'img world" where
  "empty_world = \<lparr>files = Map.empty, dirs = {[]}\<rparr>"

definition rectifying_overlay :: "nat GPSOverlay" where
  "rectifying_overlay =
     \<lparr>grid_rows = 1, grid_cols = 1,
      get_grid_cell_from_rectified = (\<lambda>x y. \<lparr>in_bounds = False, cell_row = 0, cell_col = 0\<rparr>),
      transform_image = (\<lambda>w p. case imread w p of
                           None \<Rightarrow> Inl OverlayError
                         | Some img \<Rightarrow> Inr (img + 100, \<lparr>info_offset_x = 3, info_offset_y = 4\<rparr>))\<rparr>"

definition vga_shape :: "nat \<Rightarrow> int \<times> int" where
  "vga_shape img = (480, 640)"

definition unreadable_snapshot :: "nat world" where
  "unreadable_snapshot = \<lparr>files = [[''snapshot_raw.png''] \<mapsto> Other], dirs = {[]}\<rparr>"

section \<open>Properties of the cell state cycle\<close>

lemma next_state_FREE: "next_state FREE = Inr OBSTACLE"
  by (simp add: next_state_def cycle_table_def FREE_def OBSTACLE_def HOME_def)

lemma next_state_OBSTACLE: "next_state OBSTACLE = Inr HOME"
  by (simp add: next_state_def cycle_table_def FREE_def OBSTACLE_def HOME_def)

lemma next_state_HOME: "next_state HOME = Inr FREE"
  by (simp add: next_state_def cycle_table_def FREE_def OBSTACLE_def HOME_def)

lemma next_state_other:
  "s \<noteq> FREE \<Longrightarrow> s \<noteq> OBSTACLE \<Longrightarrow> s \<noteq> HOME \<Longrightarrow> next_state s = Inl KeyError"
  by (simp add: next_state_def cycle_table_def)

lemma states_distinct: "FREE \<noteq> OBSTACLE" "OBSTACLE \<noteq> HOME" "HOME \<noteq> FREE"
  by (simp_all add: FREE_def OBSTACLE_def HOME_def)

lemmas next_state_simps = next_state_FREE next_state_OBSTACLE next_state_HOME

lemmas numeral_nat_unfold = numeral_2_eq_2 numeral_3_eq_3

text \<open>
  Claim C1. For every cell state in \<open>{FREE, OBSTACLE, HOME}\<close> the next-state lookup of the
  click handler is defined and returns the cyclic successor (FREE to OBSTACLE, OBSTACLE to
  HOME, HOME to FREE); three applications lead back to the starting state, and neither
  one nor two applications do.
\<close>

theorem next_state_cycle:
  assumes "s \<in> {FREE, OBSTACLE, HOME}"
  shows "next_state FREE = Inr OBSTACLE \<and> next_state OBSTACLE = Inr HOME
       \<and> next_state HOME = Inr FREE
       \<and> next_state s = Inr ((s + 1) mod 3)
       \<and> next_state_n 3 s = Inr s
       \<and> next_state_n 1 s \<noteq> Inr s \<and> next_state_n 2 s \<noteq> Inr s"
proof -
  from assms consider "s = FREE" | "s = OBSTACLE" | "s = HOME" by auto
  then show ?thesis
  proof cases
    case 1
    then show ?thesis
      using states_distinct
      by (simp add: next_state_simps numeral_nat_unfold) (simp add: FREE_def OBSTACLE_def)
  next
    case 2
    then show ?thesis
      using states_distinct
      by (simp add: next_state_simps numeral_nat_unfold) (simp add: HOME_def OBSTACLE_def)
  next
    case 3
    then show ?thesis
      using states_distinct
      by (simp add: next_state_simps numeral_nat_unfold) (simp add: HOME_def FREE_def)
  qed
qed

theorem next_state_cycle_witness:
  "OBSTACLE \<in> {FREE, OBSTACLE, HOME} \<and> next_state OBSTACLE = Inr HOME
     \<and> next_state_n 3 OBSTACLE = Inr OBSTACLE"
  using next_state_cycle [of OBSTACLE] by simp

section \<open>Properties of seeding\<close>

lemma and_then_Inr: "and_then (Inr x) f = f x"
  by (simp add: and_then_def)

lemma and_then_Inl: "and_then (Inl e) f = Inl e"
  by (simp add: and_then_def)

lemma for_each_append:
  "for_each (xs @ ys) body s = and_then (for_each xs body s) (for_each ys body)"
  by (induction xs arbitrary: s) (auto simp: and_then_def split: sum.splits)

lemma py_range_int: "py_range (int n) = map int [0..<n]"
  by (simp add: py_range_def)

lemma py_index_nat: "i < length xs \<Longrightarrow> py_index xs (int i) = Inr i"
  by (simp add: py_index_def)

lemma py_getitem_nat: "i < length xs \<Longrightarrow> py_getitem xs (int i) = Inr (xs ! i)"
  by (simp add: py_getitem_def py_index_nat)

lemma py_setitem_nat: "i < length xs \<Longrightarrow> py_setitem xs (int i) v = Inr (xs[i := v])"
  by (simp add: py_setitem_def py_index_nat)

lemma seed_cell_nat:
  assumes "c < length prow" "r < length seeded" "c < length (seeded ! r)"
  shows "seed_cell prow (int r) seeded (int c) = Inr (seeded[r := (seeded ! r)[c := prow ! c]])"
  using assms by (simp add: seed_cell_def py_getitem_nat py_setitem_nat and_then_Inr)

lemma update_take_drop:
  assumes "m < length xs" "m < length ys"
  shows "(take m xs @ drop m ys)[m := xs ! m] = take (Suc m) xs @ drop (Suc m) ys"
proof -
  have "drop m ys = ys ! m # drop (Suc m) ys"
    using assms(2) by (simp add: Cons_nth_drop_Suc)
  moreover have "take (Suc m) xs = take m xs @ [xs ! m]"
    using assms(1) by (simp add: take_Suc_conv_app_nth)
  moreover have "length (take m xs) = m"
    using assms(1) by simp
  ultimately show ?thesis
    by (simp add: list_update_append)
qed

lemma seed_cells:
  assumes "m \<le> length prow" "m \<le> length (seeded ! r)" "r < length seeded"
  shows "for_each (map int [0..<m]) (seed_cell prow (int r)) seeded
         = Inr (seeded[r := take m prow @ drop m (seeded ! r)])"
  using assms
proof (induction m)
  case 0
  then show ?case by simp
next
  case (Suc m)
  let ?s = "seeded[r := take m prow @ drop m (seeded ! r)]"
  have prev: "for_each (map int [0..<m]) (seed_cell prow (int r)) seeded = Inr ?s"
    using Suc by simp
  have len: "m < length (?s ! r)" "r < length ?s" "m < length prow"
    using Suc.prems by simp_all
  have step: "seed_cell prow (int r) ?s (int m) = Inr (?s[r := (?s ! r)[m := prow ! m]])"
    using len by (rule_tac seed_cell_nat) simp_all
  have "(?s ! r)[m := prow ! m] = take (Suc m) prow @ drop (Suc m) (seeded ! r)"
    using Suc.prems by (simp add: update_take_drop)
  then have "?s[r := (?s ! r)[m := prow ! m]] = seeded[r := take (Suc m) prow @ drop (Suc m) (seeded ! r)]"
    by simp
  with prev step show ?case
    by (simp add: for_each_append and_then_Inr)
qed


lemma seed_row_nat:
  assumes "r < length persisted" "r < length seeded" "nc \<le> length (seeded ! r)"
  shows "seed_row (int nc) persisted seeded (int r)
         = Inr (seeded[r := take nc (persisted ! r)
                             @ drop (min nc (length (persisted ! r))) (seeded ! r)])"
proof -
  let ?prow = "persisted ! r"
  let ?m = "min nc (length ?prow)"
  have m: "min (int nc) (int (length ?prow)) = int ?m"
    by simp
  have loop: "for_each (map int [0..<?m]) (seed_cell ?prow (int r)) seeded
              = Inr (seeded[r := take ?m ?prow @ drop ?m (seeded ! r)])"
    using assms by (intro seed_cells) simp_all
  have "take ?m ?prow = take nc ?prow"
    by (simp add: min_def)
  with loop show ?thesis
    using assms(1)
    by (simp only: seed_row_def py_getitem_nat and_then_Inr Let_def m py_range_int)
qed

lemma seed_rows:
  assumes "k \<le> length persisted" "k \<le> length seeded"
    and "\<And>r. r < length seeded \<Longrightarrow> nc \<le> length (seeded ! r)"
  shows "for_each (map int [0..<k]) (seed_row (int nc) persisted) seeded
         = Inr (map (\<lambda>r. if r < k
                           then take nc (persisted ! r)
                                @ drop (min nc (length (persisted ! r))) (seeded ! r)
                           else seeded ! r) [0..<length seeded])"
  using assms(1,2)
proof (induction k)
  case 0
  then show ?case by (simp add: map_nth)
next
  case (Suc k)
  let ?f = "\<lambda>j r. if r < j
                   then take nc (persisted ! r)
                        @ drop (min nc (length (persisted ! r))) (seeded ! r)
                   else seeded ! r"
  let ?s = "map (?f k) [0..<length seeded]"
  have prev: "for_each (map int [0..<k]) (seed_row (int nc) persisted) seeded = Inr ?s"
    using Suc by simp
  have k: "k < length persisted" "k < length ?s" "k < length seeded"
    using Suc.prems by simp_all
  have sk: "?s ! k = seeded ! k"
    using k(3) by simp
  have "nc \<le> length (?s ! k)"
    using assms(3) [OF k(3)] sk by simp
  then have step: "seed_row (int nc) persisted ?s (int k)
                   = Inr (?s[k := take nc (persisted ! k)
                                  @ drop (min nc (length (persisted ! k))) (?s ! k)])"
    using k(1,2) by (rule_tac seed_row_nat)
  have "?s[k := take nc (persisted ! k) @ drop (min nc (length (persisted ! k))) (?s ! k)]
        = map (?f (Suc k)) [0..<length seeded]"
  proof (rule nth_equalityI)
    show "length (?s[k := take nc (persisted ! k)
                          @ drop (min nc (length (persisted ! k))) (?s ! k)])
          = length (map (?f (Suc k)) [0..<length seeded])"
      by simp
  next
    fix i
    assume "i < length (?s[k := take nc (persisted ! k)
                                @ drop (min nc (length (persisted ! k))) (?s ! k)])"
    then have i: "i < length seeded" by simp
    show "?s[k := take nc (persisted ! k)
                  @ drop (min nc (length (persisted ! k))) (?s ! k)] ! i
          = map (?f (Suc k)) [0..<length seeded] ! i"
    proof (cases "i = k")
      case True
      then show ?thesis using k(3) by simp
    next
      case False
      then show ?thesis using i by (auto simp: less_Suc_eq)
    qed
  qed
  with prev step show ?case
    by (simp only: upt_Suc_append [OF le0] map_append list.map for_each_append and_then_Inr
        for_each.simps)
qed

lemma seed_grid_nat:
  "seed_grid (int nr) (int nc) persisted
   = Inr (map (\<lambda>r. if r < min nr (length persisted)
                     then take nc (persisted ! r)
                          @ drop (min nc (length (persisted ! r))) (replicate nc FREE)
                     else replicate nc FREE) [0..<nr])"
proof -
  let ?seeded = "replicate nr (replicate nc FREE)"
  have init: "map (\<lambda>_. map (\<lambda>_. FREE) (map int [0..<nc])) (map int [0..<nr]) = ?seeded"
    by (simp add: map_replicate_const)
  have m: "min (int nr) (int (length persisted)) = int (min nr (length persisted))"
    by simp
  have loop: "for_each (map int [0..<min nr (length persisted)]) (seed_row (int nc) persisted) ?seeded
        = Inr (map (\<lambda>r. if r < min nr (length persisted)
                           then take nc (persisted ! r)
                                @ drop (min nc (length (persisted ! r))) (?seeded ! r)
                           else ?seeded ! r) [0..<length ?seeded])"
    by (rule seed_rows) simp_all
  have "map (\<lambda>r. if r < min nr (length persisted)
                           then take nc (persisted ! r)
                                @ drop (min nc (length (persisted ! r))) (?seeded ! r)
                           else ?seeded ! r) [0..<length ?seeded]
        = map (\<lambda>r. if r < min nr (length persisted)
                     then take nc (persisted ! r)
                          @ drop (min nc (length (persisted ! r))) (replicate nc FREE)
                     else replicate nc FREE) [0..<nr]"
    by simp
  with loop show ?thesis
    by (simp only: seed_grid_def Let_def init m py_range_int)
qed

text \<open>
  Claim C2. For all \<open>rows \<ge> 0\<close>, \<open>cols \<ge> 0\<close> and every persisted array of arrays,
  \<open>_seed_grid\<close> returns (it does not raise) a grid of \<open>rows\<close> rows of \<open>cols\<close> cells each, in
  which the cell at (r, c) is the persisted value at (r, c) when r is an index of a
  persisted row and c an index into that row, and FREE otherwise.
\<close>

theorem seed_grid_clips:
  assumes "0 \<le> n_rows" "0 \<le> n_cols"
  shows "\<exists>g. seed_grid n_rows n_cols persisted = Inr g
           \<and> length g = nat n_rows
           \<and> (\<forall>r < nat n_rows. length (g ! r) = nat n_cols)
           \<and> (\<forall>r < nat n_rows. \<forall>c < nat n_cols.
                 g ! r ! c = (if r < length persisted \<and> c < length (persisted ! r)
                              then persisted ! r ! c else FREE))"
proof -
  define nr nc where "nr = nat n_rows" and "nc = nat n_cols"
  have rc: "n_rows = int nr" "n_cols = int nc"
    using assms by (simp_all add: nr_def nc_def)
  let ?row = "\<lambda>r. if r < min nr (length persisted)
                     then take nc (persisted ! r)
                          @ drop (min nc (length (persisted ! r))) (replicate nc FREE)
                     else replicate nc FREE"
  let ?g = "map ?row [0..<nr]"
  have res: "seed_grid n_rows n_cols persisted = Inr ?g"
    unfolding rc by (rule seed_grid_nat)
  have len: "length ?g = nr" by simp
  have rowlen: "length (?g ! r) = nc" if "r < nr" for r
    using that by (simp add: min_def)
  have cell: "?g ! r ! c = (if r < length persisted \<and> c < length (persisted ! r)
                              then persisted ! r ! c else FREE)"
    if "r < nr" "c < nc" for r c
  proof (cases "r < length persisted")
    case True
    show ?thesis
    proof (cases "c < length (persisted ! r)")
      case inside: True
      then show ?thesis using that True by (simp add: nth_append)
    next
      case False
      then show ?thesis using that True by (simp add: nth_append min_def)
    qed
  next
    case False
    then show ?thesis using that by simp
  qed
  show ?thesis
    using res len rowlen cell unfolding nr_def nc_def by blast
qed

theorem seed_grid_clips_witness:
  "(0::int) \<le> 3 \<and> (0::int) \<le> 5
   \<and> seed_grid 3 3 [[1, 2, 0, 1, 2], [2, 0, 1, 2, 0], [0, 1, 2, 0, 1],
                      [1, 1, 1, 1, 1], [2, 2, 2, 2, 2]]
       = Inr [[1, 2, 0], [2, 0, 1], [0, 1, 2]]
   \<and> seed_grid 5 5 [[1, 2, 0], [2, 0, 1], [0, 1, 2]]
       = Inr [[1, 2, 0, FREE, FREE], [2, 0, 1, FREE, FREE], [0, 1, 2, FREE, FREE],
              [FREE, FREE, FREE, FREE, FREE], [FREE, FREE, FREE, FREE, FREE]]"
proof -
  let ?p5 = "[[1, 2, 0, 1, 2], [2, 0, 1, 2, 0], [0, 1, 2, 0, 1],
              [1, 1, 1, 1, 1], [2, 2, 2, 2, 2 :: int]]"
  let ?p3 = "[[1, 2, 0], [2, 0, 1], [0, 1, 2 :: int]]"
  from seed_grid_clips [of 3 3 ?p5] obtain g where g: "seed_grid 3 3 ?p5 = Inr g"
      "length g = 3" "\<forall>r<3. length (g ! r) = 3"
      "\<forall>r<3. \<forall>c<3. g ! r ! c = (if r < length ?p5 \<and> c < length (?p5 ! r)
                                   then ?p5 ! r ! c else FREE)"
    by auto
  have "g = [[1, 2, 0], [2, 0, 1], [0, 1, 2]]"
  proof (rule nth_equalityI)
    show "length g = length [[1, 2, 0], [2, 0, 1], [0, 1, 2 :: int]]"
      using g(2) by simp
  next
    fix r assume "r < length g"
    then have r: "r < 3" using g(2) by simp
    show "g ! r = [[1, 2, 0], [2, 0, 1], [0, 1, 2]] ! r"
    proof (rule nth_equalityI)
      show "length (g ! r) = length ([[1, 2, 0], [2, 0, 1], [0, 1, 2 :: int]] ! r)"
        using g(3) r by (auto simp: less_Suc_eq numeral_3_eq_3)
    next
      fix c assume "c < length (g ! r)"
      then have c: "c < 3" using g(3) r by simp
      from g(4) r c have "g ! r ! c = (if r < length ?p5 \<and> c < length (?p5 ! r)
                                   then ?p5 ! r ! c else FREE)"
        by blast
      then show "g ! r ! c = [[1, 2, 0], [2, 0, 1], [0, 1, 2]] ! r ! c"
        using r c by (auto simp: less_Suc_eq numeral_3_eq_3)
    qed
  qed
  with g(1) have first: "seed_grid 3 3 ?p5 = Inr [[1, 2, 0], [2, 0, 1], [0, 1, 2]]"
    by simp
  have "seed_grid (int 5) (int 5) ?p3
        = Inr (map (\<lambda>r. if r < min 5 (length ?p3)
                     then take 5 (?p3 ! r)
                          @ drop (min 5 (length (?p3 ! r))) (replicate 5 FREE)
                     else replicate 5 FREE) [0..<5])"
    by (rule seed_grid_nat)
  then have second: "seed_grid 5 5 ?p3
       = Inr [[1, 2, 0, FREE, FREE], [2, 0, 1, FREE, FREE], [0, 1, 2, FREE, FREE],
              [FREE, FREE, FREE, FREE, FREE], [FREE, FREE, FREE, FREE, FREE]]"
    by (simp add: upt_rec numeral_nat)
  from first second show ?thesis by simp
qed

section \<open>Properties of the click handler\<close>

lemma py_index_bound: "py_index xs i = Inr j \<Longrightarrow> j < length xs"
  by (auto simp: py_index_def Let_def split: if_splits)

lemma py_getitem_Inr:
  "py_getitem xs i = Inr v \<Longrightarrow> \<exists>j < length xs. py_index xs i = Inr j \<and> v = xs ! j"
  by (auto simp: py_getitem_def split: sum.splits dest: py_index_bound)

lemma py_setitem_Inr:
  "py_setitem xs i v = Inr ys \<Longrightarrow> \<exists>j < length xs. py_index xs i = Inr j \<and> ys = xs[j := v]"
  by (auto simp: py_setitem_def split: sum.splits dest: py_index_bound)

lemma and_then_Inr_iff: "and_then r f = Inr y \<longleftrightarrow> (\<exists>x. r = Inr x \<and> f x = Inr y)"
  by (cases r) (simp_all add: and_then_def)

lemma next_state_Inr: "next_state v = Inr v' \<Longrightarrow> v' = FREE \<or> v' = OBSTACLE \<or> v' = HOME"
  by (auto simp: next_state_def cycle_table_def split: option.splits if_splits)

lemma handle_mouse_not_left:
  "event \<noteq> EVENT_LBUTTONDOWN \<Longrightarrow> handle_mouse event x y flags s = Inr s"
  by (simp add: handle_mouse_def)

lemma handle_mouse_outside:
  "\<not> in_bounds (get_grid_cell_from_rectified (overlay s) (x + offset_x s) (y + offset_y s))
   \<Longrightarrow> handle_mouse event x y flags s = Inr s"
  by (simp add: handle_mouse_def rectified_to_grid_cell_def Let_def)

lemma handle_mouse_inside:
  assumes "in_bounds (get_grid_cell_from_rectified (overlay s) (x + offset_x s) (y + offset_y s))"
    and "cell_row (get_grid_cell_from_rectified (overlay s) (x + offset_x s) (y + offset_y s)) = int r"
    and "cell_col (get_grid_cell_from_rectified (overlay s) (x + offset_x s) (y + offset_y s)) = int c"
    and "r < length (grid s)" "c < length (grid s ! r)"
  shows "handle_mouse EVENT_LBUTTONDOWN x y flags s
         = and_then (next_state (grid s ! r ! c))
             (\<lambda>v. Inr (s\<lparr>grid := (grid s)[r := (grid s ! r)[c := v]]\<rparr>))"
proof -
  have cell: "rectified_to_grid_cell x y s = Some (int r, int c)"
    using assms(1-3) by (simp add: rectified_to_grid_cell_def Let_def)
  show ?thesis
    using assms(4,5)
    by (cases "next_state (grid s ! r ! c)")
       (simp_all add: handle_mouse_def cell py_getitem_nat py_setitem_nat and_then_Inr
          and_then_Inl)
qed

lemma handle_mouse_result:
  assumes "handle_mouse event x y flags s = Inr s'"
  shows "s' = s \<or> (\<exists>r c v. r < length (grid s) \<and> c < length (grid s ! r)
                     \<and> (v = FREE \<or> v = OBSTACLE \<or> v = HOME)
                     \<and> s' = s\<lparr>grid := (grid s)[r := (grid s ! r)[c := v]]\<rparr>)"
proof (cases "event \<noteq> EVENT_LBUTTONDOWN \<or> rectified_to_grid_cell x y s = None")
  case True
  then have "handle_mouse event x y flags s = Inr s"
    by (auto simp: handle_mouse_def)
  with assms show ?thesis by simp
next
  case False
  then obtain ri ci where cell: "event = EVENT_LBUTTONDOWN"
      "rectified_to_grid_cell x y s = Some (ri, ci)"
    by auto
  from assms cell obtain grid_row current v grid_row' grid' where steps:
      "py_getitem (grid s) ri = Inr grid_row"
      "py_getitem grid_row ci = Inr current"
      "next_state current = Inr v"
      "py_setitem grid_row ci v = Inr grid_row'"
      "py_setitem (grid s) ri grid_row' = Inr grid'"
      "s' = s\<lparr>grid := grid'\<rparr>"
    by (auto simp: handle_mouse_def and_then_Inr_iff)
  from steps(1) obtain r where r: "r < length (grid s)" "py_index (grid s) ri = Inr r"
      "grid_row = grid s ! r"
    by (auto dest: py_getitem_Inr)
  from steps(4) obtain c where c: "c < length grid_row" "grid_row' = grid_row[c := v]"
    by (auto dest: py_setitem_Inr)
  from steps(5) r(2) have "grid' = (grid s)[r := grid_row']"
    by (auto dest: py_setitem_Inr)
  with r c steps(6) next_state_Inr [OF steps(3)] show ?thesis
    by blast
qed

lemma rectangular_lengths:
  "rectangular g \<longleftrightarrow> (\<forall>n \<in> set (tl (map length g)). n = hd (map length g))"
  by (cases g) (auto simp: rectangular_def list_all_iff)

lemma lengths_update: "map length (g[r := (g ! r)[c := v]]) = map length g"
proof (cases "r < length g")
  case True
  then have "(map length g)[r := length (g ! r)] = map length g"
    by (metis length_map list_update_id nth_map)
  then show ?thesis by (simp add: map_update)
next
  case False
  then have "g[r := (g ! r)[c := v]] = g"
    by (intro list_update_beyond) simp
  then show ?thesis by simp
qed

lemma rectangular_update: "rectangular g \<Longrightarrow> rectangular (g[r := (g ! r)[c := v]])"
  by (simp only: rectangular_lengths lengths_update)

lemma cells_valid_set:
  "cells_valid g \<longleftrightarrow> (\<forall>cells \<in> set g. \<forall>v \<in> set cells. v = FREE \<or> v = OBSTACLE \<or> v = HOME)"
  by (simp add: cells_valid_def list_all_iff)

lemma cells_valid_update:
  assumes "cells_valid g" "v = FREE \<or> v = OBSTACLE \<or> v = HOME"
  shows "cells_valid (g[r := (g ! r)[c := v]])"
proof (cases "r < length g")
  case True
  show ?thesis
    unfolding cells_valid_set
  proof (intro ballI)
    fix cells u
    assume cells: "cells \<in> set (g[r := (g ! r)[c := v]])" and u: "u \<in> set cells"
    from cells have "cells = (g ! r)[c := v] \<or> cells \<in> set g"
      using set_update_subset_insert [of g r] by auto
    then show "u = FREE \<or> u = OBSTACLE \<or> u = HOME"
    proof
      assume "cells = (g ! r)[c := v]"
      with u have "u = v \<or> u \<in> set (g ! r)"
        using set_update_subset_insert [of "g ! r" c] by auto
      moreover have "g ! r \<in> set g" using True by simp
      ultimately show ?thesis
        using assms unfolding cells_valid_set by blast
    next
      assume "cells \<in> set g"
      with u assms(1) show ?thesis unfolding cells_valid_set by blast
    qed
  qed
next
  case False
  then have "g[r := (g ! r)[c := v]] = g"
    by (intro list_update_beyond) simp
  with assms(1) show ?thesis by simp
qed

lemma handle_mouse_invariant:
  assumes "handle_mouse event x y flags s = Inr s'" "grid_invariant (grid s)"
  shows "grid_invariant (grid s')"
  using handle_mouse_result [OF assms(1)] assms(2)
  by (auto simp: grid_invariant_def intro: rectangular_update cells_valid_update)

lemma handle_mouse_rectangular:
  assumes "handle_mouse event x y flags s = Inr s'" "rectangular (grid s)"
  shows "rectangular (grid s')"
  using handle_mouse_result [OF assms(1)] assms(2)
  by (auto intro: rectangular_update)

lemma handle_events_rectangular:
  "rectangular (grid s) \<Longrightarrow> rectangular (grid (handle_events events s))"
proof (induction events arbitrary: s)
  case Nil
  then show ?case by simp
next
  case (Cons ev events)
  obtain event x y flags where ev: "ev = (event, x, y, flags)"
    by (cases ev) auto
  have "rectangular
          (grid (case handle_mouse event x y flags s of Inl e \<Rightarrow> s | Inr s' \<Rightarrow> s'))"
    using Cons.prems by (auto split: sum.splits intro: handle_mouse_rectangular)
  then show ?case
    unfolding ev by (simp add: Cons.IH)
qed

lemma handle_events_invariant:
  "grid_invariant (grid s) \<Longrightarrow> grid_invariant (grid (handle_events events s))"
proof (induction events arbitrary: s)
  case Nil
  then show ?case by simp
next
  case (Cons ev events)
  obtain event x y flags where ev: "ev = (event, x, y, flags)"
    by (cases ev) auto
  have "grid_invariant
          (grid (case handle_mouse event x y flags s of Inl e \<Rightarrow> s | Inr s' \<Rightarrow> s'))"
    using Cons.prems by (auto split: sum.splits intro: handle_mouse_invariant)
  then show ?case
    unfolding ev by (simp add: Cons.IH)
qed

section \<open>The grid invariant\<close>

lemma nat_min_int: "nat (min a (int l)) = min (nat a) l"
  by (auto simp: min_def)

lemma py_range_nat: "py_range n = py_range (int (nat n))"
  by (simp add: py_range_def)

lemma seed_row_nonneg: "seed_row n_cols = seed_row (int (nat n_cols))"
proof (intro ext)
  fix persisted seeded row_idx
  have "py_range (min n_cols (int l)) = py_range (min (int (nat n_cols)) (int l))" for l
    unfolding py_range_def by (simp only: nat_min_int nat_int)
  then show "seed_row n_cols persisted seeded row_idx
             = seed_row (int (nat n_cols)) persisted seeded row_idx"
    by (simp add: seed_row_def Let_def)
qed

lemma seed_grid_nonneg:
  "seed_grid n_rows n_cols persisted = seed_grid (int (nat n_rows)) (int (nat n_cols)) persisted"
proof -
  have "py_range (min n_rows (int l)) = py_range (min (int (nat n_rows)) (int l))" for l
    unfolding py_range_def by (simp only: nat_min_int nat_int)
  moreover have "py_range n_rows = py_range (int (nat n_rows))"
    "py_range n_cols = py_range (int (nat n_cols))"
    by (rule py_range_nat)+
  ultimately show ?thesis
    unfolding seed_grid_def Let_def
    using seed_row_nonneg [of n_cols] by simp
qed

lemma seed_grid_int:
  "seed_grid n_rows n_cols persisted
   = Inr (map (\<lambda>r. if r < min (nat n_rows) (length persisted)
                     then take (nat n_cols) (persisted ! r)
                          @ drop (min (nat n_cols) (length (persisted ! r)))
                              (replicate (nat n_cols) FREE)
                     else replicate (nat n_cols) FREE) [0..<nat n_rows])"
  by (subst seed_grid_nonneg) (rule seed_grid_nat)

lemma seed_grid_rectangular:
  assumes "seed_grid n_rows n_cols persisted = Inr g"
  shows "rectangular g"
proof -
  have "\<forall>cells \<in> set g. length cells = nat n_cols"
    using assms unfolding seed_grid_int by (auto simp: min_def)
  then show ?thesis
    by (cases g) (auto simp: rectangular_def list_all_iff)
qed

lemma seed_grid_cells_valid:
  assumes "seed_grid n_rows n_cols persisted = Inr g" "cells_valid persisted"
  shows "cells_valid g"
  unfolding cells_valid_set
proof (intro ballI)
  fix cells v
  assume cells: "cells \<in> set g" and v: "v \<in> set cells"
  from assms(1) cells obtain r where r: "r < nat n_rows"
    "cells = (if r < min (nat n_rows) (length persisted)
              then take (nat n_cols) (persisted ! r)
                   @ drop (min (nat n_cols) (length (persisted ! r)))
                       (replicate (nat n_cols) FREE)
              else replicate (nat n_cols) FREE)"
    unfolding seed_grid_int by auto
  show "v = FREE \<or> v = OBSTACLE \<or> v = HOME"
  proof (cases "r < min (nat n_rows) (length persisted)")
    case True
    then have "persisted ! r \<in> set persisted" by simp
    moreover from True r(2) v have "v \<in> set (take (nat n_cols) (persisted ! r)) \<or> v = FREE"
      by (auto dest: in_set_dropD)
    then have "v \<in> set (persisted ! r) \<or> v = FREE"
      by (auto dest: in_set_takeD)
    ultimately show ?thesis
      using assms(2) unfolding cells_valid_set by blast
  next
    case False
    with r(2) v show ?thesis by auto
  qed
qed

text \<open>
  Claim C3, as amended. Seeding returns a rectangular grid for every input, and a grid that
  satisfies the whole invariant (rectangular, every value FREE, OBSTACLE or HOME) when
  every persisted value is one of the three states. A click that the handler completes
  keeps the grid rectangular and keeps the whole invariant, and so does every sequence
  of mouse events, whether the handler completes or raises on each of them.
\<close>

theorem grid_invariant_preserved:
  "(\<exists>g. seed_grid n_rows n_cols persisted = Inr g \<and> rectangular g
         \<and> (cells_valid persisted \<longrightarrow> grid_invariant g))
   \<and> (handle_mouse event x y flags s = Inr s'
        \<longrightarrow> (rectangular (grid s) \<longrightarrow> rectangular (grid s'))
            \<and> (grid_invariant (grid s) \<longrightarrow> grid_invariant (grid s')))
   \<and> (rectangular (grid s) \<longrightarrow> rectangular (grid (handle_events events s)))
   \<and> (grid_invariant (grid s) \<longrightarrow> grid_invariant (grid (handle_events events s)))"
proof (intro conjI)
  obtain g where g: "seed_grid n_rows n_cols persisted = Inr g"
    using seed_grid_int by blast
  then have "rectangular g" "cells_valid persisted \<longrightarrow> grid_invariant g"
    by (auto simp: grid_invariant_def intro: seed_grid_rectangular seed_grid_cells_valid)
  with g show "\<exists>g. seed_grid n_rows n_cols persisted = Inr g \<and> rectangular g
         \<and> (cells_valid persisted \<longrightarrow> grid_invariant g)"
    by blast
next
  show "handle_mouse event x y flags s = Inr s'
        \<longrightarrow> (rectangular (grid s) \<longrightarrow> rectangular (grid s'))
            \<and> (grid_invariant (grid s) \<longrightarrow> grid_invariant (grid s'))"
    by (blast intro: handle_mouse_invariant handle_mouse_rectangular)
next
  show "rectangular (grid s) \<longrightarrow> rectangular (grid (handle_events events s))"
    by (blast intro: handle_events_rectangular)
next
  show "grid_invariant (grid s) \<longrightarrow> grid_invariant (grid (handle_events events s))"
    by (blast intro: handle_events_invariant)
qed

lemma seed_one: "seed_grid 1 1 [[v]] = Inr [[v]]"
  using seed_grid_nat [of 1 1 "[[v]]"] by simp

text \<open>
  The claim as stated fails: seeding copies a persisted 7 into the grid, which then
  holds a value outside the three states.
\<close>

theorem seeding_keeps_invalid_value:
  "seed_grid 1 1 [[7]] = Inr [[7]] \<and> \<not> grid_invariant [[7]]"
  by (simp add: seed_one grid_invariant_def cells_valid_def FREE_def OBSTACLE_def HOME_def)

lemma click_example:
  "handle_mouse EVENT_LBUTTONDOWN 0 0 0 (editor_with [[1, 2], [0, 1]] (overlay_at True 0 1))
   = Inr (editor_with [[1, 0], [0, 1]] (overlay_at True 0 1))"
  by (simp add: handle_mouse_def rectified_to_grid_cell_def editor_with_def overlay_at_def
      py_getitem_def py_setitem_def py_index_def and_then_def next_state_def cycle_table_def
      FREE_def OBSTACLE_def HOME_def)

lemma valid_example: "grid_invariant [[1, 2], [0, 1]]"
  by (simp add: grid_invariant_def rectangular_def cells_valid_def FREE_def OBSTACLE_def HOME_def)

theorem grid_invariant_preserved_witness:
  "cells_valid [[1, 2], [0, 1]]
   \<and> (\<exists>g. seed_grid 2 2 [[1, 2], [0, 1]] = Inr g \<and> grid_invariant g)
   \<and> grid_invariant (grid (editor_with [[1, 2], [0, 1]] (overlay_at True 0 1)))
   \<and> handle_mouse EVENT_LBUTTONDOWN 0 0 0 (editor_with [[1, 2], [0, 1]] (overlay_at True 0 1))
       = Inr (editor_with [[1, 0], [0, 1]] (overlay_at True 0 1))
   \<and> grid_invariant (grid (editor_with [[1, 0], [0, 1]] (overlay_at True 0 1)))
   \<and> grid_invariant (grid (handle_events
         [(EVENT_LBUTTONDOWN, 0, 0, 0), (EVENT_LBUTTONDOWN, 5, 5, 0)]
         (editor_with [[1, 2], [0, 1]] (overlay_at True 0 1))))"
proof -
  let ?s = "editor_with [[1, 2], [0, 1]] (overlay_at True 0 1)"
  let ?s' = "editor_with [[1, 0], [0, 1]] (overlay_at True 0 1)"
  have valid: "cells_valid [[1, 2], [0, 1]]"
    using valid_example by (simp add: grid_invariant_def)
  have inv: "grid_invariant (grid ?s)"
    using valid_example by (simp add: editor_with_def)
  note inst = grid_invariant_preserved [where n_rows = 2 and n_cols = 2
      and persisted = "[[1, 2], [0, 1]]" and s = ?s and event = EVENT_LBUTTONDOWN and x = 0
      and y = 0 and flags = 0 and s' = ?s'
      and events = "[(EVENT_LBUTTONDOWN, 0, 0, 0), (EVENT_LBUTTONDOWN, 5, 5, 0)]"]
  from inst valid have seeded: "\<exists>g. seed_grid 2 2 [[1, 2], [0, 1]] = Inr g \<and> grid_invariant g"
    by blast
  from inst inv click_example have clicked: "grid_invariant (grid ?s')"
    by blast
  from inst inv have events: "grid_invariant (grid (handle_events
         [(EVENT_LBUTTONDOWN, 0, 0, 0), (EVENT_LBUTTONDOWN, 5, 5, 0)] ?s))"
    by blast
  from valid seeded inv click_example clicked events show ?thesis
    by blast
qed

section \<open>The frame of a click\<close>

lemma next_state_valid:
  "v \<in> {FREE, OBSTACLE, HOME} \<Longrightarrow> next_state v = Inr ((v + 1) mod 3)"
  by (auto simp: next_state_def cycle_table_def FREE_def OBSTACLE_def HOME_def)

lemma next_state_KeyError:
  "v \<notin> {FREE, OBSTACLE, HOME} \<Longrightarrow> next_state v = Inl KeyError"
  by (simp add: next_state_def cycle_table_def)

text \<open>
  Claim C5, as amended. An event that is not a left button press, or a position the overlay
  reports out of bounds, leaves the state as it is. A left button press on an in-bounds
  cell (r, c) that is a cell of the grid and holds FREE, OBSTACLE or HOME replaces that
  cell by its cyclic successor and changes no other cell, no row length and no other
  field of the state.
\<close>

theorem handle_mouse_frame:
  "(event \<noteq> EVENT_LBUTTONDOWN
      \<or> \<not> in_bounds (get_grid_cell_from_rectified (overlay s) (x + offset_x s) (y + offset_y s))
     \<longrightarrow> handle_mouse event x y flags s = Inr s)
   \<and> (event = EVENT_LBUTTONDOWN
       \<and> get_grid_cell_from_rectified (overlay s) (x + offset_x s) (y + offset_y s)
           = \<lparr>in_bounds = True, cell_row = int r, cell_col = int c\<rparr>
       \<and> r < length (grid s) \<and> c < length (grid s ! r)
       \<and> grid s ! r ! c \<in> {FREE, OBSTACLE, HOME}
     \<longrightarrow> (\<exists>s'. handle_mouse event x y flags s = Inr s'
            \<and> s' = s\<lparr>grid := (grid s)[r := (grid s ! r)[c := (grid s ! r ! c + 1) mod 3]]\<rparr>
            \<and> next_state (grid s ! r ! c) = Inr (grid s' ! r ! c)
            \<and> length (grid s') = length (grid s)
            \<and> (\<forall>i < length (grid s). length (grid s' ! i) = length (grid s ! i)
                  \<and> (\<forall>j < length (grid s ! i).
                        (i, j) \<noteq> (r, c) \<longrightarrow> grid s' ! i ! j = grid s ! i ! j))))"
proof (intro conjI impI)
  assume "event \<noteq> EVENT_LBUTTONDOWN
      \<or> \<not> in_bounds (get_grid_cell_from_rectified (overlay s) (x + offset_x s) (y + offset_y s))"
  then show "handle_mouse event x y flags s = Inr s"
    using handle_mouse_not_left handle_mouse_outside by blast
next
  let ?v = "(grid s ! r ! c + 1) mod 3"
  let ?s' = "s\<lparr>grid := (grid s)[r := (grid s ! r)[c := ?v]]\<rparr>"
  assume a: "event = EVENT_LBUTTONDOWN
       \<and> get_grid_cell_from_rectified (overlay s) (x + offset_x s) (y + offset_y s)
           = \<lparr>in_bounds = True, cell_row = int r, cell_col = int c\<rparr>
       \<and> r < length (grid s) \<and> c < length (grid s ! r)
       \<and> grid s ! r ! c \<in> {FREE, OBSTACLE, HOME}"
  then have next_v: "next_state (grid s ! r ! c) = Inr ?v"
    by (intro next_state_valid) simp
  have run: "handle_mouse event x y flags s = Inr ?s'"
    using a handle_mouse_inside [of s x y r c flags] next_v
    by (simp add: and_then_Inr)
  have cell: "grid ?s' ! r ! c = ?v"
    using a by simp
  have others: "\<forall>i < length (grid s). length (grid ?s' ! i) = length (grid s ! i)
                  \<and> (\<forall>j < length (grid s ! i).
                        (i, j) \<noteq> (r, c) \<longrightarrow> grid ?s' ! i ! j = grid s ! i ! j)"
    using a by (auto simp: nth_list_update)
  show "\<exists>s'. handle_mouse event x y flags s = Inr s'
            \<and> s' = s\<lparr>grid := (grid s)[r := (grid s ! r)[c := ?v]]\<rparr>
            \<and> next_state (grid s ! r ! c) = Inr (grid s' ! r ! c)
            \<and> length (grid s') = length (grid s)
            \<and> (\<forall>i < length (grid s). length (grid s' ! i) = length (grid s ! i)
                  \<and> (\<forall>j < length (grid s ! i).
                        (i, j) \<noteq> (r, c) \<longrightarrow> grid s' ! i ! j = grid s ! i ! j))"
    using run next_v cell others by (intro exI [of _ ?s']) simp
qed

text \<open>
  The claim as stated fails: on an in-bounds cell that holds 7 the handler raises
  KeyError, and on an in-bounds answer outside the grid it raises IndexError; in both
  cases no cell is replaced.
\<close>

theorem handle_mouse_raises_on_in_bounds_cell:
  "in_bounds (get_grid_cell_from_rectified (overlay (editor_with [[7]] (overlay_at True 0 0)))
       (0 + offset_x (editor_with [[7]] (overlay_at True 0 0)))
       (0 + offset_y (editor_with [[7]] (overlay_at True 0 0))))
   \<and> handle_mouse EVENT_LBUTTONDOWN 0 0 0 (editor_with [[7]] (overlay_at True 0 0))
       = Inl KeyError
   \<and> in_bounds (get_grid_cell_from_rectified (overlay (editor_with [[0]] (overlay_at True 5 0)))
       (0 + offset_x (editor_with [[0]] (overlay_at True 5 0)))
       (0 + offset_y (editor_with [[0]] (overlay_at True 5 0))))
   \<and> handle_mouse EVENT_LBUTTONDOWN 0 0 0 (editor_with [[0]] (overlay_at True 5 0))
       = Inl IndexError"
  by (simp add: handle_mouse_def rectified_to_grid_cell_def editor_with_def overlay_at_def
      py_getitem_def py_setitem_def py_index_def and_then_def next_state_def cycle_table_def
      FREE_def OBSTACLE_def HOME_def)

theorem handle_mouse_frame_witness:
  "EVENT_LBUTTONDOWN + 1 \<noteq> EVENT_LBUTTONDOWN
   \<and> handle_mouse (EVENT_LBUTTONDOWN + 1) 0 0 0 (editor_with [[1, 2], [0, 1]] (overlay_at True 0 1))
       = Inr (editor_with [[1, 2], [0, 1]] (overlay_at True 0 1))
   \<and> handle_mouse EVENT_LBUTTONDOWN 0 0 0 (editor_with [[1, 2], [0, 1]] (overlay_at False 0 1))
       = Inr (editor_with [[1, 2], [0, 1]] (overlay_at False 0 1))
   \<and> handle_mouse EVENT_LBUTTONDOWN 0 0 0 (editor_with [[1, 2], [0, 1]] (overlay_at True 0 1))
       = Inr (editor_with [[1, 0], [0, 1]] (overlay_at True 0 1))"
proof -
  let ?g = "[[1, 2], [0, 1 :: int]]"
  let ?s = "editor_with ?g (overlay_at True 0 1)"
  let ?t = "editor_with ?g (overlay_at False 0 1)"
  have ne: "EVENT_LBUTTONDOWN + 1 \<noteq> EVENT_LBUTTONDOWN" by simp
  have first: "handle_mouse (EVENT_LBUTTONDOWN + 1) 0 0 0 ?s = Inr ?s"
    using handle_mouse_frame [where event = "EVENT_LBUTTONDOWN + 1" and s = ?s and x = 0 and y = 0
        and flags = 0] ne by blast
  have "\<not> in_bounds (get_grid_cell_from_rectified (overlay ?t) (0 + offset_x ?t) (0 + offset_y ?t))"
    by (simp add: editor_with_def overlay_at_def)
  then have second: "handle_mouse EVENT_LBUTTONDOWN 0 0 0 ?t = Inr ?t"
    using handle_mouse_frame [where event = EVENT_LBUTTONDOWN and s = ?t and x = 0 and y = 0
        and flags = 0] by blast
  have pre: "EVENT_LBUTTONDOWN = EVENT_LBUTTONDOWN
       \<and> get_grid_cell_from_rectified (overlay ?s) (0 + offset_x ?s) (0 + offset_y ?s)
           = \<lparr>in_bounds = True, cell_row = int 0, cell_col = int 1\<rparr>
       \<and> 0 < length (grid ?s) \<and> 1 < length (grid ?s ! 0)
       \<and> grid ?s ! 0 ! 1 \<in> {FREE, OBSTACLE, HOME}"
    by (simp add: editor_with_def overlay_at_def HOME_def)
  from handle_mouse_frame [where event = EVENT_LBUTTONDOWN and s = ?s and x = 0 and y = 0
      and flags = 0 and r = 0 and c = 1] pre
  have "handle_mouse EVENT_LBUTTONDOWN 0 0 0 ?s
        = Inr (?s\<lparr>grid := (grid ?s)[0 := (grid ?s ! 0)[1 := (grid ?s ! 0 ! 1 + 1) mod 3]]\<rparr>)"
    by blast
  then have third: "handle_mouse EVENT_LBUTTONDOWN 0 0 0 ?s
        = Inr (editor_with [[1, 0], [0, 1]] (overlay_at True 0 1))"
    by (simp add: editor_with_def)
  from ne first second third show ?thesis by blast
qed

text \<open>
  Claim C10. The next-state lookup is defined on FREE, OBSTACLE and HOME only; on any other
  value it raises KeyError, and so does the handler on a left click on a cell of the grid
  that holds such a value, without updating the grid. Such a value gets into the grid:
  seeding copies any persisted integer unchanged.
\<close>

theorem next_state_partial:
  "dom cycle_table = {FREE, OBSTACLE, HOME}
   \<and> (v \<notin> {FREE, OBSTACLE, HOME} \<longrightarrow> next_state v = Inl KeyError)
   \<and> (event = EVENT_LBUTTONDOWN
       \<and> get_grid_cell_from_rectified (overlay s) (x + offset_x s) (y + offset_y s)
           = \<lparr>in_bounds = True, cell_row = int r, cell_col = int c\<rparr>
       \<and> r < length (grid s) \<and> c < length (grid s ! r)
       \<and> grid s ! r ! c \<notin> {FREE, OBSTACLE, HOME}
     \<longrightarrow> handle_mouse event x y flags s = Inl KeyError)
   \<and> seed_grid 1 1 [[v]] = Inr [[v]]"
proof (intro conjI impI)
  show "dom cycle_table = {FREE, OBSTACLE, HOME}"
    by (auto simp: cycle_table_def)
next
  assume "v \<notin> {FREE, OBSTACLE, HOME}"
  then show "next_state v = Inl KeyError" by (rule next_state_KeyError)
next
  assume a: "event = EVENT_LBUTTONDOWN
       \<and> get_grid_cell_from_rectified (overlay s) (x + offset_x s) (y + offset_y s)
           = \<lparr>in_bounds = True, cell_row = int r, cell_col = int c\<rparr>
       \<and> r < length (grid s) \<and> c < length (grid s ! r)
       \<and> grid s ! r ! c \<notin> {FREE, OBSTACLE, HOME}"
  then have "next_state (grid s ! r ! c) = Inl KeyError"
    by (intro next_state_KeyError) simp
  then show "handle_mouse event x y flags s = Inl KeyError"
    using a handle_mouse_inside [of s x y r c flags] by (simp add: and_then_Inl)
next
  show "seed_grid 1 1 [[v]] = Inr [[v]]" by (rule seed_one)
qed

theorem next_state_partial_witness:
  "(7::int) \<notin> {FREE, OBSTACLE, HOME}
   \<and> next_state 7 = Inl KeyError
   \<and> seed_grid 1 1 [[7]] = Inr [[7]]
   \<and> handle_mouse EVENT_LBUTTONDOWN 0 0 0 (editor_with [[7]] (overlay_at True 0 0))
       = Inl KeyError"
proof -
  let ?s = "editor_with [[7]] (overlay_at True 0 0)"
  have v: "(7::int) \<notin> {FREE, OBSTACLE, HOME}"
    by (simp add: FREE_def OBSTACLE_def HOME_def)
  have pre: "EVENT_LBUTTONDOWN = EVENT_LBUTTONDOWN
       \<and> get_grid_cell_from_rectified (overlay ?s) (0 + offset_x ?s) (0 + offset_y ?s)
           = \<lparr>in_bounds = True, cell_row = int 0, cell_col = int 0\<rparr>
       \<and> 0 < length (grid ?s) \<and> 0 < length (grid ?s ! 0)
       \<and> grid ?s ! 0 ! 0 \<notin> {FREE, OBSTACLE, HOME}"
    using v by (simp add: editor_with_def overlay_at_def)
  note inst = next_state_partial [where v = 7 and event = EVENT_LBUTTONDOWN and s = ?s and x = 0
      and y = 0 and flags = 0 and r = 0 and c = 0]
  from inst v have "next_state 7 = Inl KeyError" by blast
  moreover from inst have "seed_grid 1 1 [[7]] = Inr [[7]]" by blast
  moreover from inst pre have "handle_mouse EVENT_LBUTTONDOWN 0 0 0 ?s = Inl KeyError" by blast
  ultimately show ?thesis using v by blast
qed

section \<open>Properties of the grid file and the layout API\<close>

lemma those_map_Some: "those (map Some xs) = Some xs"
  by (induction xs) simp_all

lemma decode_int_row: "decode_array decode_int (JArr (map JNum cells)) = Some cells"
proof -
  have "map decode_int (map JNum cells) = map Some cells"
    by simp
  then show ?thesis
    by (simp only: decode_array.simps those_map_Some)
qed

lemma decode_encode_grid: "decode_grid (encode_grid g) = Some g"
proof -
  have "map (decode_array decode_int) (map (\<lambda>r. JArr (map JNum r)) g) = map Some g"
    by (induction g) (simp_all only: list.map decode_int_row)
  then show ?thesis
    by (simp only: decode_grid_def encode_grid_def decode_array.simps those_map_Some)
qed

lemma load_after_save:
  assumes "save_grid g p w = Inr w'"
  shows "load_grid w' p = Inr g"
proof -
  from assms have "w' = w\<lparr>files := (files w)(p \<mapsto> Json (encode_grid g))\<rparr>"
    by (simp add: save_grid_def split: if_splits)
  then show ?thesis
    by (simp add: load_grid_def decode_encode_grid)
qed

text \<open>
  Claim C4. For every grid and path, a \<open>save_grid\<close> that completes followed by
  \<open>load_grid\<close> of the same path yields the grid that was saved; the save completes
  whenever the parent directory of the path exists.
\<close>

theorem save_load_roundtrip:
  "(save_grid g p w = Inr w' \<longrightarrow> load_grid w' p = Inr g)
   \<and> (parent p \<in> dirs w \<longrightarrow> (\<exists>w''. save_grid g p w = Inr w'' \<and> load_grid w'' p = Inr g))"
proof (intro conjI impI)
  assume "save_grid g p w = Inr w'"
  then show "load_grid w' p = Inr g" by (rule load_after_save)
next
  assume "parent p \<in> dirs w"
  then obtain w'' where "save_grid g p w = Inr w''"
    by (simp add: save_grid_def)
  then show "\<exists>w''. save_grid g p w = Inr w'' \<and> load_grid w'' p = Inr g"
    using load_after_save by blast
qed

theorem save_load_roundtrip_witness:
  "parent [''grid.json''] \<in> dirs (empty_world :: unit world)
   \<and> (\<exists>w'. save_grid [[0, 1, 0], [2, 0, 1]] [''grid.json''] (empty_world :: unit world) = Inr w'
          \<and> load_grid w' [''grid.json''] = Inr [[0, 1, 0], [2, 0, 1]])"
proof -
  have dir: "parent [''grid.json''] \<in> dirs (empty_world :: unit world)"
    by (simp add: parent_def empty_world_def)
  with save_load_roundtrip [where g = "[[0, 1, 0], [2, 0, 1]]" and p = "[''grid.json'']"
      and w = "empty_world :: unit world"]
  show ?thesis by blast
qed

text \<open>
  Claim C6. When the grid file does not exist, \<open>load_grid\<close> returns the empty grid and
  the four query functions of the layout API return an empty result (the empty list, the
  empty string, statistics that are all zero); none of them raises.
\<close>

theorem missing_file_is_empty:
  assumes "\<not> path_exists w p"
  shows "load_grid w p = Inr []
       \<and> get_map_json w p = Inr []
       \<and> get_map symbols w p = Inr []
       \<and> get_map_as_string symbols cell_separator w p = Inr []
       \<and> get_map_info w p = Inr \<lparr>info_rows = 0, info_cols = 0, total_cells = 0,
                                    free_count = 0, obstacle_count = 0, home_count = 0\<rparr>"
proof -
  from assms have "files w p = None"
    by (simp add: path_exists_def)
  then have load: "load_grid w p = Inr []"
    by (simp add: load_grid_def)
  then show ?thesis
    by (simp add: get_map_json_def get_map_def get_map_as_string_def get_map_info_def
        and_then_Inr grid_info_def count_cells_def)
qed

theorem missing_file_is_empty_witness:
  "\<not> path_exists (empty_world :: unit world) [''grid.json'']
   \<and> load_grid (empty_world :: unit world) [''grid.json''] = Inr []
   \<and> get_map plain_symbols (empty_world :: unit world) [''grid.json''] = Inr []
   \<and> get_map_as_string plain_symbols '' '' (empty_world :: unit world) [''grid.json''] = Inr []
   \<and> get_map_info (empty_world :: unit world) [''grid.json'']
       = Inr \<lparr>info_rows = 0, info_cols = 0, total_cells = 0,
              free_count = 0, obstacle_count = 0, home_count = 0\<rparr>"
proof -
  have "\<not> path_exists (empty_world :: unit world) [''grid.json'']"
    by (simp add: path_exists_def empty_world_def)
  with missing_file_is_empty [of "empty_world :: unit world" "[''grid.json'']" plain_symbols "'' ''"]
  show ?thesis by blast
qed

lemma count_cells_sorted: "count_cells v g = length (filter (\<lambda>cell. cell = v) (sort (concat g)))"
proof -
  have "length (filter (\<lambda>cell. cell = v) (sort (concat g)))
        = length (sort (filter (\<lambda>cell. cell = v) (concat g)))"
    by (simp only: filter_sort)
  then show ?thesis
    by (simp add: count_cells_def)
qed

lemma total_cells_sorted: "length (concat g) = length (sort (concat g))"
  by simp

text \<open>
  The doubles of the percentages 6/9, 2/9 and 1/9, and of the fractions 23/80 and 49/80,
  whose exact percentages 28.75 and 61.25 lie halfway between two tenths: the code
  prints 28.7 and 61.3 for them.
\<close>

lemma quotient_6_9: "nearest_double 6 9 = (6004799503160661, 9007199254740992)"
  by (simp add: nearest_double_def bit_length.simps pow2_def round_half_even_def Let_def)

lemma product_6_9: "nearest_double 600479950316066100 9007199254740992 = (4691249611844266, 70368744177664)"
  by (simp add: nearest_double_def bit_length.simps pow2_def round_half_even_def Let_def)

lemma percent_6_9: "percent_1f 6 9 = Some 667"
  by (simp add: percent_1f_def quotient_6_9 product_6_9 round_half_even_def)

lemma quotient_2_9: "nearest_double 2 9 = (8006399337547548, 36028797018963968)"
  by (simp add: nearest_double_def bit_length.simps pow2_def round_half_even_def Let_def)

lemma product_2_9: "nearest_double 800639933754754800 36028797018963968 = (6254999482459022, 281474976710656)"
  by (simp add: nearest_double_def bit_length.simps pow2_def round_half_even_def Let_def)

lemma percent_2_9: "percent_1f 2 9 = Some 222"
  by (simp add: percent_1f_def quotient_2_9 product_2_9 round_half_even_def)

lemma quotient_1_9: "nearest_double (Suc 0) 9 = (8006399337547548, 72057594037927936)"
  by (simp add: nearest_double_def bit_length.simps pow2_def round_half_even_def Let_def)

lemma product_1_9: "nearest_double 800639933754754800 72057594037927936 = (6254999482459022, 562949953421312)"
  by (simp add: nearest_double_def bit_length.simps pow2_def round_half_even_def Let_def)

lemma percent_1_9: "percent_1f 1 9 = Some 111"
  by (simp add: percent_1f_def quotient_1_9 product_1_9 round_half_even_def)

lemma quotient_23_80: "nearest_double 23 80 = (5179139571476070, 18014398509481984)"
  by (simp add: nearest_double_def bit_length.simps pow2_def round_half_even_def Let_def)

lemma product_23_80: "nearest_double 517913957147607000 18014398509481984 = (8092405580431359, 281474976710656)"
  by (simp add: nearest_double_def bit_length.simps pow2_def round_half_even_def Let_def)

lemma percent_23_80: "percent_1f 23 80 = Some 287"
  by (simp add: percent_1f_def quotient_23_80 product_23_80 round_half_even_def)

lemma quotient_49_80: "nearest_double 49 80 = (5516909543528858, 9007199254740992)"
  by (simp add: nearest_double_def bit_length.simps pow2_def round_half_even_def Let_def)

lemma product_49_80: "nearest_double 551690954352885800 9007199254740992 = (8620171161763841, 140737488355328)"
  by (simp add: nearest_double_def bit_length.simps pow2_def round_half_even_def Let_def)

lemma percent_49_80: "percent_1f 49 80 = Some 613"
  by (simp add: percent_1f_def quotient_49_80 product_49_80 round_half_even_def)

lemma percent_Suc_0_9: "percent_1f (Suc 0) 9 = Some 111"
  using percent_1_9 by simp

text \<open>
  Claim C7. For a stored 3 by 3 grid with six FREE, two OBSTACLE and one HOME cell,
  \<open>get_map_info\<close> reports 3 rows, 3 columns, 9 cells, 6 free, 2 obstacle and 1 home, and
  the percentages its callers print for these counts are 66.7, 22.2 and 11.1 (667, 222
  and 111 tenths).
\<close>

theorem map_info_statistics:
  assumes "files w p = Some (Json (encode_grid g))"
    and "length g = 3" "\<forall>cells \<in> set g. length cells = 3"
    and "sort (concat g) = [FREE, FREE, FREE, FREE, FREE, FREE, OBSTACLE, OBSTACLE, HOME]"
  shows "get_map_info w p
         = Inr \<lparr>info_rows = 3, info_cols = 3, total_cells = 9,
                free_count = 6, obstacle_count = 2, home_count = 1\<rparr>
       \<and> test_get_map_info w p
         = Inr (\<lparr>info_rows = 3, info_cols = 3, total_cells = 9,
                 free_count = 6, obstacle_count = 2, home_count = 1\<rparr>,
                Some (Some 667, Some 222, Some 111))"
proof -
  have load: "get_map_json w p = Inr g"
    using assms(1) by (simp add: get_map_json_def load_grid_def decode_encode_grid)
  have cols: "(case g of [] \<Rightarrow> 0 | r # _ \<Rightarrow> length r) = 3"
    using assms(2,3) by (cases g) auto
  have total: "length (concat g) = 9"
    by (subst total_cells_sorted) (simp add: assms(4))
  have counts: "count_cells FREE g = 6" "count_cells OBSTACLE g = 2" "count_cells HOME g = 1"
    by (simp_all add: count_cells_sorted assms(4) FREE_def OBSTACLE_def HOME_def)
  have info: "get_map_info w p
         = Inr \<lparr>info_rows = 3, info_cols = 3, total_cells = 9,
                free_count = 6, obstacle_count = 2, home_count = 1\<rparr>"
    by (simp add: get_map_info_def load and_then_Inr grid_info_def assms(2) cols total counts)
  have pct: "percentages \<lparr>info_rows = 3, info_cols = 3, total_cells = 9,
                free_count = 6, obstacle_count = 2, home_count = 1\<rparr>
         = Some (Some 667, Some 222, Some 111)"
    by (simp add: percentages_def percent_6_9 percent_2_9 percent_Suc_0_9)
  from info pct show ?thesis
    by (simp add: test_get_map_info_def and_then_Inr)
qed

theorem map_info_statistics_witness:
  "files (\<lparr>files = [[''grid.json''] \<mapsto> Json (encode_grid [[0, 1, 0], [0, 2, 0], [1, 0, 0]])],
           dirs = {[]}\<rparr> :: unit world) [''grid.json'']
     = Some (Json (encode_grid [[0, 1, 0], [0, 2, 0], [1, 0, 0]]))
   \<and> sort (concat [[0, 1, 0], [0, 2, 0], [1, 0, 0]])
     = [FREE, FREE, FREE, FREE, FREE, FREE, OBSTACLE, OBSTACLE, HOME]
   \<and> test_get_map_info (\<lparr>files = [[''grid.json''] \<mapsto> Json (encode_grid [[0, 1, 0], [0, 2, 0], [1, 0, 0]])],
           dirs = {[]}\<rparr> :: unit world) [''grid.json'']
     = Inr (\<lparr>info_rows = 3, info_cols = 3, total_cells = 9,
             free_count = 6, obstacle_count = 2, home_count = 1\<rparr>,
            Some (Some 667, Some 222, Some 111))"
proof -
  let ?g = "[[0, 1, 0], [0, 2, 0], [1, 0, 0 :: int]]"
  let ?w = "\<lparr>files = [[''grid.json''] \<mapsto> Json (encode_grid ?g)], dirs = {[]}\<rparr> :: unit world"
  have f: "files ?w [''grid.json''] = Some (Json (encode_grid ?g))" by simp
  have l: "length ?g = 3" "\<forall>cells \<in> set ?g. length cells = 3" by simp_all
  have s: "sort (concat ?g) = [FREE, FREE, FREE, FREE, FREE, FREE, OBSTACLE, OBSTACLE, HOME]"
    by (simp add: FREE_def OBSTACLE_def HOME_def)
  from map_info_statistics [OF f l s] f s show ?thesis by blast
qed

section \<open>Properties of frame acquisition\<close>

lemma png_encoder:
  assumes "''png'' \<in> set encoders"
  shows "has_encoder encoders (path_name [''snapshot_raw.png''])"
    and "has_encoder encoders (path_name [''snapshot_rectified.png''])"
proof -
  have lower: "map to_lower ''png'' = ''png''"
    by (simp add: to_lower_def)
  have "''png'' \<in> map to_lower ` set encoders"
    using assms lower by (metis imageI)
  then have member: "''png'' \<in> set (map (map to_lower) encoders)"
    by simp
  have "extension ''snapshot_raw.png'' = Some ''png''"
    "extension ''snapshot_rectified.png'' = Some ''png''"
    by (simp_all add: extension_def is_alnum_def)
  with member lower show "has_encoder encoders (path_name [''snapshot_raw.png''])"
    and "has_encoder encoders (path_name [''snapshot_rectified.png''])"
    by (simp_all add: has_encoder_def path_name_def)
qed

lemma mkdir_working_directory: "[] \<in> dirs w \<Longrightarrow> mkdir_parents w [] = Inr w"
  by (simp add: mkdir_parents_def ancestors_def)

lemma imwrite_snapshot:
  assumes "''png'' \<in> set encoders" "[] \<in> dirs w" "[''snapshot_raw.png''] \<notin> dirs w"
  shows "imwrite encoders w [''snapshot_raw.png''] img
         = Inr (w\<lparr>files := (files w)([''snapshot_raw.png''] \<mapsto> Picture img)\<rparr>)"
  using assms png_encoder(1) [OF assms(1)] by (simp add: imwrite_def parent_def)

lemma imwrite_rectified:
  assumes "''png'' \<in> set encoders"
  shows "\<exists>w'. imwrite encoders w [''snapshot_rectified.png''] img = Inr w'
           \<and> dirs w' = dirs w
           \<and> (\<forall>q. q \<noteq> [''snapshot_rectified.png''] \<longrightarrow> files w' q = files w q)"
  using png_encoder(2) [OF assms] by (simp add: imwrite_def)

lemma get_rectified_frame_default:
  assumes "fetch_axis_snapshot = Inr raw"
    and "''png'' \<in> set encoders"
    and "[] \<in> dirs w" "[''snapshot_raw.png''] \<notin> dirs w"
    and "imread w [''snapshot_raw.png''] = None"
  shows "get_rectified_frame fetch_axis_snapshot shape encoders ov None w
         = and_then
             (transform_image ov (w\<lparr>files := (files w)([''snapshot_raw.png''] \<mapsto> Picture raw)\<rparr>)
                [''snapshot_raw.png''])
             (\<lambda>(rectified, offsets).
                and_then
                  (imwrite encoders
                     (w\<lparr>files := (files w)([''snapshot_raw.png''] \<mapsto> Picture raw)\<rparr>)
                     [''snapshot_rectified.png''] rectified)
                  (\<lambda>w3. Inr ((rectified, snd (shape rectified), fst (shape rectified), offsets),
                            w3)))"
proof (cases "files w [''snapshot_raw.png''] = None")
  case True
  then have absent: "\<not> path_exists w [''snapshot_raw.png'']"
    using assms(4) by (simp add: path_exists_def)
  show ?thesis
    using absent assms(1)
    by (simp add: get_rectified_frame_def and_then_Inr parent_def
        mkdir_working_directory [OF assms(3)] imwrite_snapshot [OF assms(2,3,4)]
        case_prod_beta Let_def)
next
  case False
  then have present: "path_exists w [''snapshot_raw.png'']"
    by (simp add: path_exists_def)
  show ?thesis
    using present assms(1,5)
    by (simp add: get_rectified_frame_def and_then_Inr imwrite_snapshot [OF assms(2,3,4)]
        case_prod_beta Let_def)
qed

text \<open>
  Claim C8. The editor acquires its frame with the default snapshot path
  \<open>snapshot_raw.png\<close>. When that file is missing, or is there but does not load as an
  image, and the camera delivers a frame, \<open>_get_rectified_frame\<close> writes the frame to
  the snapshot path and applies \<open>transform_image\<close> to the file system that holds it.
  It raises only what \<open>transform_image\<close> raises; otherwise it returns the rectified
  image \<open>transform_image\<close> made, and in the file system it leaves behind the snapshot
  path loads as the fetched frame, and no file but the snapshot and the rectified image
  has changed. The OpenCV build writes PNG, the working directory exists, and the
  snapshot path is not a directory.
\<close>

theorem snapshot_recovery:
  assumes "fetch_axis_snapshot = Inr raw"
    and "''png'' \<in> set encoders"
    and "[] \<in> dirs w" "[''snapshot_raw.png''] \<notin> dirs w"
    and "imread w [''snapshot_raw.png''] = None"
  shows "imread (w\<lparr>files := (files w)([''snapshot_raw.png''] \<mapsto> Picture raw)\<rparr>)
           [''snapshot_raw.png''] = Some raw
       \<and> (case transform_image ov
                 (w\<lparr>files := (files w)([''snapshot_raw.png''] \<mapsto> Picture raw)\<rparr>)
                 [''snapshot_raw.png''] of
            Inl e \<Rightarrow> get_rectified_frame fetch_axis_snapshot shape encoders ov None w = Inl e
          | Inr (rectified, offsets) \<Rightarrow>
              (\<exists>w'. get_rectified_frame fetch_axis_snapshot shape encoders ov None w
                     = Inr ((rectified, snd (shape rectified), fst (shape rectified), offsets), w')
                   \<and> imread w' [''snapshot_raw.png''] = Some raw
                   \<and> (\<forall>q. q \<noteq> [''snapshot_raw.png''] \<and> q \<noteq> [''snapshot_rectified.png'']
                          \<longrightarrow> files w' q = files w q)))"
proof -
  let ?p = "[''snapshot_raw.png'']"
  let ?w1 = "w\<lparr>files := (files w)(?p \<mapsto> Picture raw)\<rparr>"
  note run = get_rectified_frame_default [OF assms, of shape ov]
  have saved: "imread ?w1 ?p = Some raw"
    by (simp add: imread_def)
  have rest: "case transform_image ov ?w1 ?p of
            Inl e \<Rightarrow> get_rectified_frame fetch_axis_snapshot shape encoders ov None w = Inl e
          | Inr (rectified, offsets) \<Rightarrow>
              (\<exists>w'. get_rectified_frame fetch_axis_snapshot shape encoders ov None w
                     = Inr ((rectified, snd (shape rectified), fst (shape rectified), offsets), w')
                   \<and> imread w' ?p = Some raw
                   \<and> (\<forall>q. q \<noteq> ?p \<and> q \<noteq> [''snapshot_rectified.png'']
                          \<longrightarrow> files w' q = files w q))"
  proof (cases "transform_image ov ?w1 ?p")
    case (Inl e)
    then show ?thesis by (simp add: run and_then_Inl)
  next
    case (Inr result)
    obtain rectified offsets where result: "result = (rectified, offsets)"
      by (cases result) auto
    obtain w3 where w3: "imwrite encoders ?w1 [''snapshot_rectified.png''] rectified = Inr w3"
        "\<forall>q. q \<noteq> [''snapshot_rectified.png''] \<longrightarrow> files w3 q = files ?w1 q"
      using imwrite_rectified [OF assms(2), of ?w1 rectified] by blast
    have "files w3 ?p = Some (Picture raw)"
      using w3(2) by simp
    then have "imread w3 ?p = Some raw"
      by (simp add: imread_def)
    moreover have "\<forall>q. q \<noteq> ?p \<and> q \<noteq> [''snapshot_rectified.png''] \<longrightarrow> files w3 q = files w q"
      using w3(2) by simp
    moreover have "get_rectified_frame fetch_axis_snapshot shape encoders ov None w
          = Inr ((rectified, snd (shape rectified), fst (shape rectified), offsets), w3)"
      by (simp add: run Inr result and_then_Inr w3(1))
    ultimately show ?thesis
      by (simp add: Inr result)
  qed
  from saved rest show ?thesis by blast
qed

lemma rectifying_overlay_transform:
  "imread w p = Some img
   \<Longrightarrow> transform_image rectifying_overlay w p
       = Inr (img + 100, \<lparr>info_offset_x = 3, info_offset_y = 4\<rparr>)"
  by (simp add: rectifying_overlay_def)

theorem snapshot_recovery_witness:
  "imread (empty_world :: nat world) [''snapshot_raw.png''] = None
   \<and> map_sum id fst
         (get_rectified_frame (Inr 5) vga_shape [''jpg'', ''png''] rectifying_overlay None
            empty_world)
       = Inr (105, 640, 480, \<lparr>info_offset_x = 3, info_offset_y = 4\<rparr>)
   \<and> map_sum id (\<lambda>r. imread (snd r) [''snapshot_raw.png''])
         (get_rectified_frame (Inr 5) vga_shape [''jpg'', ''png''] rectifying_overlay None
            empty_world)
       = Inr (Some 5)
   \<and> files unreadable_snapshot [''snapshot_raw.png''] = Some Other
   \<and> imread unreadable_snapshot [''snapshot_raw.png''] = None
   \<and> map_sum id fst
         (get_rectified_frame (Inr 5) vga_shape [''jpg'', ''png''] rectifying_overlay None
            unreadable_snapshot)
       = Inr (105, 640, 480, \<lparr>info_offset_x = 3, info_offset_y = 4\<rparr>)
   \<and> map_sum id (\<lambda>r. imread (snd r) [''snapshot_raw.png''])
         (get_rectified_frame (Inr 5) vga_shape [''jpg'', ''png''] rectifying_overlay None
            unreadable_snapshot)
       = Inr (Some 5)"
proof -
  let ?p = "[''snapshot_raw.png'']"
  let ?run = "get_rectified_frame (Inr 5) vga_shape [''jpg'', ''png''] rectifying_overlay None"
  have png: "''png'' \<in> set [''jpg'', ''png'']" by simp
  have result: "map_sum id fst (?run w) = Inr (105, 640, 480, \<lparr>info_offset_x = 3, info_offset_y = 4\<rparr>)
      \<and> map_sum id (\<lambda>r. imread (snd r) ?p) (?run w) = Inr (Some 5)"
    if w: "[] \<in> dirs w" "?p \<notin> dirs w" "imread w ?p = None" for w :: "nat world"
  proof -
    let ?w1 = "w\<lparr>files := (files w)(?p \<mapsto> Picture 5)\<rparr>"
    note inst = snapshot_recovery [where fetch_axis_snapshot = "Inr 5" and raw = 5
        and encoders = "[''jpg'', ''png'']" and w = w and shape = vga_shape
        and ov = rectifying_overlay, OF refl png w]
    from inst have saved: "imread ?w1 ?p = Some 5" by blast
    have "transform_image rectifying_overlay ?w1 ?p
          = Inr (105, \<lparr>info_offset_x = 3, info_offset_y = 4\<rparr>)"
      using rectifying_overlay_transform [OF saved] by simp
    with inst obtain w' where
      "?run w = Inr ((105, snd (vga_shape 105), fst (vga_shape 105),
                      \<lparr>info_offset_x = 3, info_offset_y = 4\<rparr>), w')"
      "imread w' ?p = Some 5"
      by auto
    then show ?thesis
      by (simp add: vga_shape_def)
  qed
  have missing: "imread (empty_world :: nat world) ?p = None"
    by (simp add: imread_def empty_world_def)
  have first: "map_sum id fst (?run empty_world)
        = Inr (105, 640, 480, \<lparr>info_offset_x = 3, info_offset_y = 4\<rparr>)
      \<and> map_sum id (\<lambda>r. imread (snd r) ?p) (?run empty_world) = Inr (Some 5)"
    by (rule result) (simp_all add: imread_def empty_world_def)
  have other: "files unreadable_snapshot ?p = Some Other"
    by (simp add: unreadable_snapshot_def)
  have unreadable: "imread unreadable_snapshot ?p = None"
    by (simp add: imread_def unreadable_snapshot_def)
  have second: "map_sum id fst (?run unreadable_snapshot)
        = Inr (105, 640, 480, \<lparr>info_offset_x = 3, info_offset_y = 4\<rparr>)
      \<and> map_sum id (\<lambda>r. imread (snd r) ?p) (?run unreadable_snapshot) = Inr (Some 5)"
    by (rule result) (simp_all add: imread_def unreadable_snapshot_def)
  from missing first other unreadable second show ?thesis by blast
qed

text \<open>
  What the model does on a snapshot name without an extension, on an extension in upper
  case, and on a directory below or onto a file.
\<close>

lemma imwrite_without_extension:
  "imwrite [''jpg'', ''png''] (empty_world :: nat world) [''snapshot_raw''] img = Inl Cv2Error"
  by (simp add: imwrite_def has_encoder_def extension_def path_name_def)

lemma get_rectified_frame_without_extension:
  "get_rectified_frame (Inr 5) vga_shape [''jpg'', ''png''] rectifying_overlay
     (Some [''snapshot_raw'']) empty_world = Inl Cv2Error"
  by (simp add: get_rectified_frame_def path_exists_def empty_world_def and_then_def
      mkdir_parents_def ancestors_def parent_def imwrite_def has_encoder_def extension_def
      path_name_def)

lemma imwrite_upper_case_extension:
  "imwrite [''jpg'', ''png''] (empty_world :: nat world) [''SNAP.PNG''] img
   = Inr (empty_world\<lparr>files := (files empty_world)([''SNAP.PNG''] \<mapsto> Picture img)\<rparr>)"
  by (simp add: imwrite_def has_encoder_def extension_def path_name_def is_alnum_def
      to_lower_def parent_def empty_world_def)

lemma mkdir_below_a_file:
  "mkdir_parents (\<lparr>files = [[''a''] \<mapsto> Other], dirs = {[]}\<rparr> :: nat world) [''a'', ''b'']
   = Inl NotADirectoryError"
  by (simp add: mkdir_parents_def ancestors_def upt_rec)

lemma mkdir_onto_a_file:
  "mkdir_parents (\<lparr>files = [[''a''] \<mapsto> Other], dirs = {[]}\<rparr> :: nat world) [''a'']
   = Inl FileExistsError"
  by (simp add: mkdir_parents_def ancestors_def upt_rec)

section \<open>Properties of the entry point\<close>

lemma not_found_message_nonempty: "not_found_message p \<noteq> []"
  by (simp add: not_found_message_def)

text \<open>
  Claim C9. When the calibration file \<open>overlay/gps_overlay.json\<close> does not exist, \<open>main\<close>
  raises FileNotFoundError with a message, whatever the overlay constructor and the
  editor would do: the list of actions is empty, so neither was called.
\<close>

theorem main_requires_calibration:
  assumes "\<not> path_exists w (overlay_path project_root)"
  shows "main project_root construct_overlay run_editor w
         = ([], Inl (FileNotFoundError (not_found_message (overlay_path project_root))))
       \<and> not_found_message (overlay_path project_root) \<noteq> []"
  using assms by (simp add: main_def Let_def not_found_message_nonempty)

theorem main_requires_calibration_witness:
  "\<not> path_exists (empty_world :: unit world) (overlay_path [''repo''])
   \<and> (main [''repo''] Inr Inr (empty_world :: unit world)
        :: action list \<times> (py_error + path))
      = ([], Inl (FileNotFoundError
           (''GPS overlay configuration not found at /repo/overlay/gps_overlay.json. ''
            @ ''Please ensure gps_overlay.json exists in the overlay/ folder.'')))"
proof -
  have absent: "\<not> path_exists (empty_world :: unit world) (overlay_path [''repo''])"
    by (simp add: path_exists_def empty_world_def overlay_path_def)
  have msg: "not_found_message (overlay_path [''repo''])
       = ''GPS overlay configuration not found at /repo/overlay/gps_overlay.json. ''
            @ ''Please ensure gps_overlay.json exists in the overlay/ folder.''"
    by (simp add: not_found_message_def overlay_path_def path_str_def)
  from main_requires_calibration [OF absent, of Inr Inr] absent msg
  show ?thesis by simp
qed

end
